theory Spec2Isabelle
  imports Complex_Main "HOL-Library.Word" "HOL-Library.Signed_Division"
begin

section \<open>API-Throttling server (server/main.go)\<close>

text \<open>
  A shallow embedding of the request pipeline of \<^verbatim>\<open>server/main.go\<close>: configuration
  loading, the throttle and rate-limit middlewares, the health handler, the route table
  and process start-up. Package-level variables (\<^verbatim>\<open>config\<close>, \<^verbatim>\<open>limiter\<close>, \<^verbatim>\<open>db\<close>) and the
  wall clock are fields of an explicit world that every handler takes and returns.
  Go's \<^verbatim>\<open>int\<close> is taken at 64 bits (the amd64/arm64 targets of the Dockerfile).
  Calls to \<^verbatim>\<open>log.Printf\<close> are left out: no value or branch depends on them.
\<close>

subsection \<open>Go integers\<close>

type_synonym go_int = "64 word"



datatype panic = DivideByZero

text \<open>
  Go's \<^verbatim>\<open>x % y\<close> on signed integers: a run-time panic when \<^verbatim>\<open>y\<close> is zero, otherwise
  the remainder of the division truncated towards zero (the sign of the dividend).
\<close>

definition go_rem :: "go_int \<Rightarrow> go_int \<Rightarrow> panic + go_int" where
  "go_rem x y = (if y = 0 then Inl DivideByZero else Inr (word_of_int (sint x smod sint y)))"

subsection \<open>Configuration\<close>

record Config =
  Port :: string
  DBHost :: string
  DBPort :: string
  DBUser :: string
  DBPassword :: string
  DBName :: string
  RateLimitRequests :: go_int
  RateLimitPeriod :: go_int
  ThrottleMinMs :: go_int
  ThrottleMaxMs :: go_int

text \<open>The process environment: \<^verbatim>\<open>os.Getenv\<close> gives the empty string for an unset variable.\<close>

type_synonym environ = "string \<Rightarrow> string"

definition getEnv :: "environ \<Rightarrow> string \<Rightarrow> string \<Rightarrow> string" where
  "getEnv env key defaultValue = (let v = env key in if v \<noteq> [] then v else defaultValue)"

text \<open>
  \<^verbatim>\<open>strconv.Atoi\<close> of the Go standard library, for a 64-bit \<^verbatim>\<open>int\<close>, in its two paths.
  A string of 1 to 18 bytes takes the fast path: an optional sign, then a loop over the
  bytes that stops with a syntax error at the first one that is not a decimal digit. Any
  other string goes to \<^verbatim>\<open>ParseInt(s, 10, 0)\<close>, which strips the sign and calls
  \<^verbatim>\<open>ParseUint\<close>. The loop of \<^verbatim>\<open>ParseUint\<close> reads the bytes from the left and returns at
  the first failure: a syntax error (value 0) at a byte that is not a digit, a range error
  (value \<open>2 ^ 64 - 1\<close>) at a digit with which the number leaves the unsigned 64-bit range,
  whatever follows that digit. \<^verbatim>\<open>ParseInt\<close> turns a syntax error into 0 and a range error,
  or a value outside the signed range, into the nearest signed bound.
\<close>

datatype NumError = ErrSyntax | ErrRange

definition digit_val :: "char \<Rightarrow> int option" where
  "digit_val c = (let n = (of_char c :: int) in if 48 \<le> n \<and> n \<le> 57 then Some (n - 48) else None)"

text \<open>The loop of the fast path; \<open>None\<close> is its syntax error.\<close>

fun digits_val :: "string \<Rightarrow> int \<Rightarrow> int option" where
  "digits_val [] acc = Some acc"
| "digits_val (c # cs) acc =
     (case digit_val c of None \<Rightarrow> None | Some d \<Rightarrow> digits_val cs (acc * 10 + d))"

definition fastAtoi :: "string \<Rightarrow> go_int \<times> NumError option" where
  "fastAtoi s0 =
     (case s0 of
        [] \<Rightarrow> (0, Some ErrSyntax)
      | c # cs \<Rightarrow>
          (let s = (if c = CHR ''-'' \<or> c = CHR ''+'' then cs else s0)
           in if s = [] then (0, Some ErrSyntax)
              else (case digits_val s 0 of
                      None \<Rightarrow> (0, Some ErrSyntax)
                    | Some n \<Rightarrow> (word_of_int (if c = CHR ''-'' then - n else n), None))))"

text \<open>
  \<^verbatim>\<open>ParseUint\<close> for base 10 and 64 bits. The \<^verbatim>\<open>uint64\<close> arithmetic is written on
  unbounded integers: below the cutoff \<^verbatim>\<open>n * 10\<close> does not wrap, and the test
  \<^verbatim>\<open>n1 < n || n1 > maxVal\<close> (the sum wrapped) is \<open>n * 10 + d > 2 ^ 64 - 1\<close>.
\<close>

definition maxUint64 :: int where
  "maxUint64 = 18446744073709551615"

definition cutoff10 :: int where
  "cutoff10 = maxUint64 div 10 + 1"

fun parseUintLoop :: "string \<Rightarrow> int \<Rightarrow> int \<times> NumError option" where
  "parseUintLoop [] n = (n, None)"
| "parseUintLoop (c # cs) n =
     (case digit_val c of
        None \<Rightarrow> (0, Some ErrSyntax)
      | Some d \<Rightarrow>
          if cutoff10 \<le> n then (maxUint64, Some ErrRange)
          else (let n1 = n * 10 + d
                in if maxUint64 < n1 then (maxUint64, Some ErrRange)
                   else parseUintLoop cs n1))"

definition ParseUint :: "string \<Rightarrow> int \<times> NumError option" where
  "ParseUint s = (if s = [] then (0, Some ErrSyntax) else parseUintLoop s 0)"

definition ParseInt :: "string \<Rightarrow> int \<times> NumError option" where
  "ParseInt s0 =
     (case s0 of
        [] \<Rightarrow> (0, Some ErrSyntax)
      | c # cs \<Rightarrow>
          (let neg = (c = CHR ''-'');
               s = (if c = CHR ''+'' \<or> c = CHR ''-'' then cs else s0)
           in case ParseUint s of
                (un, Some ErrSyntax) \<Rightarrow> (0, Some ErrSyntax)
              | (un, err) \<Rightarrow>
                  if \<not> neg \<and> 2 ^ 63 \<le> un then (2 ^ 63 - 1, Some ErrRange)
                  else if neg \<and> 2 ^ 63 < un then (- (2 ^ 63), Some ErrRange)
                  else (if neg then - un else un, None)))"

definition Atoi :: "string \<Rightarrow> go_int \<times> NumError option" where
  "Atoi s =
     (if 0 < length s \<and> length s < 19 then fastAtoi s
      else (case ParseInt s of (i64, err) \<Rightarrow> (word_of_int i64, err)))"

text \<open>\<^verbatim>\<open>loadConfig\<close>: the error result of every \<^verbatim>\<open>Atoi\<close> call is dropped (\<^verbatim>\<open>_\<close>).\<close>

definition loadConfig :: "environ \<Rightarrow> Config" where
  "loadConfig env =
     (let rateLimitRequests = fst (Atoi (getEnv env ''RATE_LIMIT_REQUESTS'' ''10''));
          rateLimitPeriod = fst (Atoi (getEnv env ''RATE_LIMIT_PERIOD'' ''1''));
          throttleMinMs = fst (Atoi (getEnv env ''THROTTLE_MIN_MS'' ''0''));
          throttleMaxMs = fst (Atoi (getEnv env ''THROTTLE_MAX_MS'' ''0''))
      in \<lparr> Port = getEnv env ''PORT'' ''8888'',
           DBHost = getEnv env ''DB_HOST'' ''postgres'',
           DBPort = getEnv env ''DB_PORT'' ''5432'',
           DBUser = getEnv env ''DB_USER'' ''postgres'',
           DBPassword = getEnv env ''DB_PASSWORD'' ''postgres'',
           DBName = getEnv env ''DB_NAME'' ''apidb'',
           RateLimitRequests = rateLimitRequests,
           RateLimitPeriod = rateLimitPeriod,
           ThrottleMinMs = throttleMinMs,
           ThrottleMaxMs = throttleMaxMs \<rparr>)"

text \<open>The configuration of an empty environment: every default.\<close>

definition defaultConfig :: Config where
  "defaultConfig = loadConfig (\<lambda>k. [])"

subsection \<open>The throttle delay\<close>

text \<open>
  The delay computation of \<^verbatim>\<open>throttleMiddleware\<close>, with the reading of
  \<^verbatim>\<open>int(time.Now().UnixNano())\<close> as the argument \<open>nano\<close>. \<open>None\<close>: throttling is
  off and \<^verbatim>\<open>time.Sleep\<close> is not called; \<open>Some delay\<close>: the value of the variable
  \<^verbatim>\<open>delay\<close> (milliseconds) handed to \<^verbatim>\<open>time.Sleep\<close>.
\<close>

definition throttleDelay :: "Config \<Rightarrow> go_int \<Rightarrow> panic + go_int option" where
  "throttleDelay cfg nano =
     (if 0 <s ThrottleMaxMs cfg then
        (if ThrottleMinMs cfg = ThrottleMaxMs cfg then Inr (Some (ThrottleMinMs cfg))
         else (case go_rem nano (ThrottleMaxMs cfg - ThrottleMinMs cfg + 1) of
                 Inl p \<Rightarrow> Inl p
               | Inr j \<Rightarrow> Inr (Some (ThrottleMinMs cfg + j))))
      else Inr None)"

text \<open>The delay in milliseconds that a request is charged: 0 when no sleep is made.\<close>

definition delayMs :: "go_int option \<Rightarrow> int" where
  "delayMs d = (case d of None \<Rightarrow> 0 | Some v \<Rightarrow> sint v)"

subsection \<open>JSON values and the response writer\<close>

text \<open>
  A \<^verbatim>\<open>float64\<close> is kept as its real value or as one of the three values that are not
  numbers; rounding is not represented. \<^verbatim>\<open>float64(a) / float64(b)\<close> on two integers:
  a zero divisor gives an infinity or NaN, never a panic.
\<close>

datatype float64 = Finite real | PosInf | NegInf | NaN

definition float_div :: "int \<Rightarrow> int \<Rightarrow> float64" where
  "float_div a b =
     (if b = 0 then (if 0 < a then PosInf else if a < 0 then NegInf else NaN)
      else Finite (real_of_int a / real_of_int b))"

text \<open>
  The values handed to \<^verbatim>\<open>json.Encoder.Encode\<close>. A \<^verbatim>\<open>map[string]interface{}\<close> is an
  association list in the order of the source literal; \<open>JTime\<close> holds the clock reading
  that \<^verbatim>\<open>Format(time.RFC3339)\<close> prints.
\<close>

datatype json =
    JString string
  | JInt int
  | JFloat float64
  | JBool bool
  | JTime int
  | JObject "(string \<times> json) list"

fun assign :: "string \<Rightarrow> 'v \<Rightarrow> (string \<times> 'v) list \<Rightarrow> (string \<times> 'v) list" where
  "assign k v [] = [(k, v)]"
| "assign k v ((k', v') # kvs) = (if k' = k then (k, v) # kvs else (k', v') # assign k v kvs)"

fun field :: "string \<Rightarrow> json \<Rightarrow> json option" where
  "field k (JObject kvs) = map_of kvs k"
| "field k _ = None"

fun jget :: "string list \<Rightarrow> json \<Rightarrow> json option" where
  "jget [] j = Some j"
| "jget (k # ks) j = (case field k j of None \<Rightarrow> None | Some v \<Rightarrow> jget ks v)"

text \<open>\<^verbatim>\<open>encoding/json\<close> refuses NaN and the infinities (UnsupportedValueError).\<close>

fun encodable :: "json \<Rightarrow> bool" where
  "encodable (JFloat f) = (case f of Finite _ \<Rightarrow> True | _ \<Rightarrow> False)"
| "encodable (JObject kvs) = list_all (\<lambda>kv. encodable (snd kv)) kvs"
| "encodable _ = True"

datatype payload = Json json | Text string

text \<open>
  The \<^verbatim>\<open>http.ResponseWriter\<close> of one request: \<open>status = None\<close> until the header is
  written. A second \<^verbatim>\<open>WriteHeader\<close> is ignored, a header set after the header was written
  is not sent, and the first write sends status 200 when none was written.
\<close>

record Response =
  header :: "(string \<times> string) list"
  status :: "nat option"
  body :: "payload list"

definition emptyResponse :: Response where
  "emptyResponse = \<lparr> header = [], status = None, body = [] \<rparr>"

definition SetHeader :: "string \<Rightarrow> string \<Rightarrow> Response \<Rightarrow> Response" where
  "SetHeader k v rs = (if status rs = None then rs\<lparr> header := assign k v (header rs) \<rparr> else rs)"

definition WriteHeader :: "nat \<Rightarrow> Response \<Rightarrow> Response" where
  "WriteHeader code rs = (if status rs = None then rs\<lparr> status := Some code \<rparr> else rs)"

definition Write :: "payload \<Rightarrow> Response \<Rightarrow> Response" where
  "Write p rs = (let rs' = WriteHeader 200 rs in rs'\<lparr> body := body rs' @ [p] \<rparr>)"

text \<open>
  \<^verbatim>\<open>json.NewEncoder(w).Encode(v)\<close>: the value is marshalled first; on an error nothing is
  written (every caller in \<^verbatim>\<open>main.go\<close> drops the error).
\<close>

definition Encode :: "json \<Rightarrow> Response \<Rightarrow> Response" where
  "Encode v rs = (if encodable v then Write (Json v) rs else rs)"

text \<open>The status the client receives: 200 when the handler returned without writing.\<close>

definition httpStatus :: "Response \<Rightarrow> nat" where
  "httpStatus rs = (case status rs of None \<Rightarrow> 200 | Some c \<Rightarrow> c)"

subsection \<open>The token-bucket limiter\<close>

text \<open>
  Modelled from the spec: \<^verbatim>\<open>rate.NewLimiter\<close> and \<^verbatim>\<open>Limiter.Allow\<close> of
  \<^verbatim>\<open>golang.org/x/time/rate\<close>, whose source is not part of the repository. Spec 4.1: the
  bucket starts with \<open>capacity\<close> tokens; \<open>TryAcquire\<close> refills to
  \<open>min(capacity, tokens + elapsed * ratePerSecond)\<close>, then takes one token and admits if
  at least one is there, and otherwise rejects without changing the state. Times are
  seconds. The spec gives no behaviour for a rate that is not a finite number; there the
  model follows the library's documentation (\<^verbatim>\<open>rate.Inf\<close> admits every event) and lets
  no token be gained for the other two values.
\<close>

record Limiter =
  limit :: float64
  burst :: int
  tokens :: real
  last :: real

text \<open>
  Modelled from the spec: \<^verbatim>\<open>rate.NewLimiter(r, b)\<close>, a full bucket of capacity \<open>b\<close>; the
  last-refill time starts at the time of construction.
\<close>

definition NewLimiter :: "float64 \<Rightarrow> int \<Rightarrow> real \<Rightarrow> Limiter" where
  "NewLimiter r b now = \<lparr> limit = r, burst = b, tokens = real_of_int b, last = now \<rparr>"

text \<open>
  Modelled from the spec: \<^verbatim>\<open>Limiter.Allow\<close> at the time \<open>now\<close>, the \<open>TryAcquire\<close> of
  spec 4.1, with \<open>gained\<close> the tokens refilled in the elapsed time.
\<close>

definition gained :: "float64 \<Rightarrow> real \<Rightarrow> real" where
  "gained r elapsed = (case r of Finite x \<Rightarrow> elapsed * x | _ \<Rightarrow> 0)"

definition TryAcquire :: "real \<Rightarrow> Limiter \<Rightarrow> bool \<times> Limiter" where
  "TryAcquire now l =
     (if limit l = PosInf then (True, l)
      else (let elapsed = now - last l;
                t = min (real_of_int (burst l)) (tokens l + gained (limit l) elapsed)
            in if 1 \<le> t then (True, l\<lparr> tokens := t - 1, last := now \<rparr>) else (False, l)))"

text \<open>\<open>n\<close> calls one after the other at the same clock reading.\<close>

fun acquireN :: "nat \<Rightarrow> real \<Rightarrow> Limiter \<Rightarrow> bool list \<times> Limiter" where
  "acquireN 0 now l = ([], l)"
| "acquireN (Suc n) now l =
     (case TryAcquire now l of (ok, l1) \<Rightarrow>
        (case acquireN n now l1 of (oks, l2) \<Rightarrow> (ok # oks, l2)))"

subsection \<open>The world of a handler\<close>

text \<open>
  \<open>clock\<close> is the wall clock in nanoseconds since the Unix epoch; \<open>dbPing\<close> is what
  \<^verbatim>\<open>db.Ping()\<close> returns now (\<open>None\<close> for nil, otherwise the text of \<^verbatim>\<open>err.Error()\<close>);
  \<open>trace\<close> records the calls to \<^verbatim>\<open>time.Sleep\<close> and \<^verbatim>\<open>limiter.Allow\<close> in the order
  they are made.
\<close>

datatype event = Sleep int | Allow bool

record World =
  config :: Config
  limiter :: Limiter
  dbPing :: "string option"
  clock :: int
  resp :: Response
  trace :: "event list"

record Request =
  Method :: string
  Path :: string

type_synonym HandlerFunc = "Request \<Rightarrow> World \<Rightarrow> panic + World"

definition UnixNano :: "World \<Rightarrow> go_int" where
  "UnixNano w = word_of_int (clock w)"

definition Millisecond :: go_int where
  "Millisecond = 1000000"

text \<open>
  \<^verbatim>\<open>time.Sleep(d)\<close> returns at once for a duration that is zero or negative; otherwise
  the clock moves by the duration (the scheduler's extra latency is not represented).
\<close>

definition timeSleep :: "go_int \<Rightarrow> World \<Rightarrow> World" where
  "timeSleep d w = w\<lparr> clock := clock w + max 0 (sint d), trace := trace w @ [Sleep (sint d)] \<rparr>"

definition limiterAllow :: "World \<Rightarrow> bool \<times> World" where
  "limiterAllow w =
     (case TryAcquire (real_of_int (clock w) / 1000000000) (limiter w) of
        (ok, l) \<Rightarrow> (ok, w\<lparr> limiter := l, trace := trace w @ [Allow ok] \<rparr>))"

subsection \<open>Middlewares\<close>

definition throttleMiddleware :: "HandlerFunc \<Rightarrow> HandlerFunc" where
  "throttleMiddleware next r w =
     (case throttleDelay (config w) (UnixNano w) of
        Inl p \<Rightarrow> Inl p
      | Inr None \<Rightarrow> next r w
      | Inr (Some delay) \<Rightarrow> next r (timeSleep (delay * Millisecond) w))"

definition rateLimited :: "Response \<Rightarrow> Response" where
  "rateLimited rs =
     Encode (JObject [(''error'', JString ''Rate limit exceeded. Too many requests.'')])
       (WriteHeader 429 (SetHeader ''Content-Type'' ''application/json'' rs))"

definition rateLimitMiddleware :: "HandlerFunc \<Rightarrow> HandlerFunc" where
  "rateLimitMiddleware next r w =
     (case limiterAllow w of
        (ok, w1) \<Rightarrow> if \<not> ok then Inr (w1\<lparr> resp := rateLimited (resp w1) \<rparr>) else next r w1)"

definition loggingMiddleware :: "HandlerFunc \<Rightarrow> HandlerFunc" where
  "loggingMiddleware next r w = next r w"

definition combinedMiddleware :: "HandlerFunc \<Rightarrow> HandlerFunc" where
  "combinedMiddleware next = loggingMiddleware (throttleMiddleware (rateLimitMiddleware next))"

subsection \<open>The health handler\<close>

text \<open>
  The map \<^verbatim>\<open>response\<close> of \<^verbatim>\<open>healthHandler\<close> as it is when it reaches the encoder: built
  from the configuration of the moment, then given the \<^verbatim>\<open>error\<close> entry and the status
  \<^verbatim>\<open>degraded\<close> when \<^verbatim>\<open>dbError != ""\<close>.
\<close>

definition dbStatus :: "World \<Rightarrow> string" where
  "dbStatus w = (case dbPing w of None \<Rightarrow> ''connected'' | Some e \<Rightarrow> ''disconnected'')"

definition dbError :: "World \<Rightarrow> string" where
  "dbError w = (case dbPing w of None \<Rightarrow> [] | Some e \<Rightarrow> e)"

definition healthDatabase :: "World \<Rightarrow> (string \<times> json) list" where
  "healthDatabase w =
     [(''status'', JString (dbStatus w)),
      (''host'', JString (DBHost (config w))),
      (''port'', JString (DBPort (config w))),
      (''name'', JString (DBName (config w)))]"

definition healthResponse :: "World \<Rightarrow> (string \<times> json) list" where
  "healthResponse w =
     [(''status'', JString ''ok''),
      (''time'', JTime (clock w)),
      (''database'', JObject (healthDatabase w)),
      (''configuration'', JObject
         [(''rate_limiting'', JObject
             [(''requests'', JInt (sint (RateLimitRequests (config w)))),
              (''period_seconds'', JInt (sint (RateLimitPeriod (config w)))),
              (''rate_per_second'', JFloat (float_div (sint (RateLimitRequests (config w)))
                                                      (sint (RateLimitPeriod (config w)))))]),
          (''throttling'', JObject
             [(''min_ms'', JInt (sint (ThrottleMinMs (config w)))),
              (''max_ms'', JInt (sint (ThrottleMaxMs (config w)))),
              (''enabled'', JBool (0 <s ThrottleMaxMs (config w)))])]),
      (''server'', JObject [(''port'', JString (Port (config w)))])]"

definition healthSnapshot :: "World \<Rightarrow> json" where
  "healthSnapshot w =
     JObject
       (if dbError w \<noteq> [] then
          assign ''status'' (JString ''degraded'')
            (assign ''database''
               (JObject (assign ''error'' (JString (dbError w)) (healthDatabase w)))
               (healthResponse w))
        else healthResponse w)"

definition healthHandler :: HandlerFunc where
  "healthHandler r w =
     (let rs0 = SetHeader ''Content-Type'' ''application/json'' (resp w);
          rs1 = (if dbStatus w = ''disconnected'' then WriteHeader 503 rs0 else rs0)
      in Inr (w\<lparr> resp := Encode (healthSnapshot w) rs1 \<rparr>))"

subsection \<open>Routes and start-up\<close>

text \<open>
  The route table of \<^verbatim>\<open>main\<close> on the default mux, matched on the exact path; the four
  business handlers are arguments. Each request gets a fresh response writer. A path
  with no route gets \<^verbatim>\<open>http.NotFound\<close>.
\<close>

definition NotFound :: HandlerFunc where
  "NotFound r w =
     Inr (w\<lparr> resp := Write (Text ''404 page not found'')
                        (WriteHeader 404
                           (SetHeader ''X-Content-Type-Options'' ''nosniff''
                              (SetHeader ''Content-Type'' ''text/plain; charset=utf-8'' (resp w)))) \<rparr>)"

definition messagesHandler :: "HandlerFunc \<Rightarrow> HandlerFunc \<Rightarrow> HandlerFunc" where
  "messagesHandler dbGetHandler dbPostHandler r w =
     (if Method r = ''GET'' then dbGetHandler r w
      else if Method r = ''POST'' then dbPostHandler r w
      else Inr (w\<lparr> resp := WriteHeader 405 (resp w) \<rparr>))"

definition routes ::
  "HandlerFunc \<Rightarrow> HandlerFunc \<Rightarrow> HandlerFunc \<Rightarrow> HandlerFunc \<Rightarrow> HandlerFunc" where
  "routes getHandler postHandler dbGetHandler dbPostHandler r w =
     (if Path r = ''/health'' then healthHandler r w
      else if Path r = ''/api/get'' then combinedMiddleware getHandler r w
      else if Path r = ''/api/post'' then combinedMiddleware postHandler r w
      else if Path r = ''/api/db/messages'' then
        combinedMiddleware (messagesHandler dbGetHandler dbPostHandler) r w
      else NotFound r w)"

definition serve ::
  "HandlerFunc \<Rightarrow> HandlerFunc \<Rightarrow> HandlerFunc \<Rightarrow> HandlerFunc \<Rightarrow> HandlerFunc" where
  "serve getHandler postHandler dbGetHandler dbPostHandler r w =
     routes getHandler postHandler dbGetHandler dbPostHandler r (w\<lparr> resp := emptyResponse \<rparr>)"

text \<open>
  \<^verbatim>\<open>initDB\<close>. The database server is outside the program: \<open>openErr\<close>, \<open>pingErr\<close> and
  \<open>execErr\<close> give, for a connection string, the error of \<^verbatim>\<open>sql.Open\<close>, of the
  \<open>i\<close>-th \<^verbatim>\<open>db.Ping()\<close> and of the \<^verbatim>\<open>CREATE TABLE\<close> statement (\<open>None\<close> for nil). The
  connection string is made of the five \<^verbatim>\<open>DB\<close> fields of the configuration. The loop
  pings up to 30 times and sleeps two seconds after each failure; the result carries the
  number of those sleeps.
\<close>

record Postgres =
  openErr :: "string \<Rightarrow> string option"
  pingErr :: "string \<Rightarrow> nat \<Rightarrow> string option"
  execErr :: "string \<Rightarrow> string option"

definition connStr :: "Config \<Rightarrow> string" where
  "connStr cfg =
     ''host='' @ DBHost cfg @ '' port='' @ DBPort cfg @ '' user='' @ DBUser cfg
       @ '' password='' @ DBPassword cfg @ '' dbname='' @ DBName cfg
       @ '' sslmode=disable''"

fun pingLoop :: "(nat \<Rightarrow> string option) \<Rightarrow> nat \<Rightarrow> nat \<Rightarrow> string option \<Rightarrow> string option \<times> nat" where
  "pingLoop ping i 0 err = (err, 0)"
| "pingLoop ping i (Suc k) err =
     (case ping i of
        None \<Rightarrow> (None, 0)
      | Some e \<Rightarrow> (case pingLoop ping (Suc i) k (Some e) of (r, n) \<Rightarrow> (r, Suc n)))"

definition initDB :: "Config \<Rightarrow> Postgres \<Rightarrow> string option \<times> nat" where
  "initDB cfg pg =
     (let c = connStr cfg
      in case openErr pg c of
           Some e \<Rightarrow> (Some e, 0)
         | None \<Rightarrow>
             (case pingLoop (pingErr pg c) 0 30 None of
                (Some e, n) \<Rightarrow> (Some e, n)
              | (None, n) \<Rightarrow> (execErr pg c, n)))"

text \<open>
  \<^verbatim>\<open>main\<close>: the configuration is loaded and the limiter built with no check of either;
  \<^verbatim>\<open>log.Fatalf\<close> ends the process when \<^verbatim>\<open>initDB\<close> or \<^verbatim>\<open>ListenAndServe\<close> returns an
  error. \<open>listenAndServe\<close> gives the error of \<^verbatim>\<open>server.ListenAndServe()\<close> for the
  address \<^verbatim>\<open>":" + config.Port\<close> (\<open>None\<close>: the server is serving); \<open>now\<close> is the clock
  at start-up.
\<close>

datatype outcome = is_Fatal: Fatal string | Serving (world: World)

definition main ::
  "environ \<Rightarrow> int \<Rightarrow> Postgres \<Rightarrow> (string \<Rightarrow> string option) \<Rightarrow> outcome" where
  "main env now pg listenAndServe =
     (let config = loadConfig env;
          ratePerSecond = float_div (sint (RateLimitRequests config)) (sint (RateLimitPeriod config));
          limiter = NewLimiter ratePerSecond (sint (RateLimitRequests config))
                      (real_of_int now / 1000000000)
      in case initDB config pg of
           (Some err, n) \<Rightarrow> Fatal (''[FATAL] Failed to initialize database: '' @ err)
         | (None, n) \<Rightarrow>
             (case listenAndServe ('':'' @ Port config) of
                Some err \<Rightarrow> Fatal (''[FATAL] Server failed to start: '' @ err)
              | None \<Rightarrow>
                  Serving \<lparr> config = config, limiter = limiter, dbPing = None,
                            clock = now + int n * 2000000000,
                            resp = emptyResponse,
                            trace = replicate n (Sleep 2000000000) \<rparr>))"

text \<open>A database that answers at once and a listener that binds.\<close>

definition healthyPostgres :: Postgres where
  "healthyPostgres = \<lparr> openErr = (\<lambda>c. None), pingErr = (\<lambda>c i. None), execErr = (\<lambda>c. None) \<rparr>"

definition listening :: "string \<Rightarrow> string option" where
  "listening addr = None"

subsection \<open>Vocabulary of the specification\<close>



text \<open>
  The time in nanoseconds that \<^verbatim>\<open>throttleMiddleware\<close> suspends a request whose computed
  delay is \<open>d\<close>, and the call to \<^verbatim>\<open>time.Sleep\<close> it makes.
\<close>

definition sleepNs :: "go_int option \<Rightarrow> int" where
  "sleepNs d = (case d of None \<Rightarrow> 0 | Some v \<Rightarrow> max 0 (sint (v * Millisecond)))"

definition sleepEvents :: "go_int option \<Rightarrow> event list" where
  "sleepEvents d = (case d of None \<Rightarrow> [] | Some v \<Rightarrow> [Sleep (sint (v * Millisecond))])"

text \<open>The response of a rejected request.\<close>

definition tooManyRequests :: Response where
  "tooManyRequests =
     \<lparr> header = [(''Content-Type'', ''application/json'')],
       status = Some 429,
       body = [Json (JObject [(''error'', JString ''Rate limit exceeded. Too many requests.'')])] \<rparr>"

text \<open>The field names of an object.\<close>

definition keys :: "json \<Rightarrow> string list" where
  "keys j = (case j of JObject kvs \<Rightarrow> map fst kvs | _ \<Rightarrow> [])"






text \<open>An environment with one variable set.\<close>

definition envWith :: "string \<Rightarrow> string \<Rightarrow> environ" where
  "envWith key v = (\<lambda>k. if k = key then v else [])"

text \<open>
  An environment that throttles every request by 200 ms and admits none, and the world
  in which a server started from it at clock 0 receives a request.
\<close>

definition slowClosedEnv :: environ where
  "slowClosedEnv =
     (envWith ''THROTTLE_MIN_MS'' ''200'')
       (''THROTTLE_MAX_MS'' := ''200'', ''RATE_LIMIT_REQUESTS'' := ''0'')"

definition slowClosedWorld :: World where
  "slowClosedWorld = world (main slowClosedEnv 0 healthyPostgres listening)"

text \<open>The same world with the database unreachable.\<close>

definition degradedWorld :: World where
  "degradedWorld = slowClosedWorld\<lparr> dbPing := Some ''connection refused'' \<rparr>"


section \<open>Properties\<close>

subsection \<open>64-bit arithmetic\<close>

lemma sint64_bounds: "- (2 ^ 63) \<le> sint (x :: go_int) \<and> sint x < 2 ^ 63"
  using sint_ge [of x] sint_lt [of x] by simp

lemma sint64_of_int: "- (2 ^ 63) \<le> k \<Longrightarrow> k < 2 ^ 63 \<Longrightarrow> sint (word_of_int k :: go_int) = k"
  by (simp add: sint_sbintrunc' signed_take_bit_int_eq_self)

lemma smod_nonneg_bounds:
  fixes n K :: int
  assumes "0 \<le> n" "K \<noteq> 0"
  shows "0 \<le> n smod K" "n smod K < \<bar>K\<bar>" "n smod K \<le> n"
proof -
  have e: "n smod K = n mod \<bar>K\<bar>"
    using assms(1) by (cases "n = 0") (simp_all add: smod_int_alt_def)
  show "0 \<le> n smod K" using assms by (simp add: e)
  show "n smod K < \<bar>K\<bar>" using assms by (simp add: e)
  have "n mod \<bar>K\<bar> \<le> n" using assms(1) by (simp add: zmod_le_nonneg_dividend)
  then show "n smod K \<le> n" by (simp add: e)
qed

text \<open>The one divisor that overflows, \<open>2 ^ 63\<close>, wraps to \<open>- 2 ^ 63\<close>: same magnitude.\<close>

lemma abs_signed_take_bit_63:
  fixes x :: int
  assumes "0 < x" "x \<le> 2 ^ 63"
  shows "\<bar>signed_take_bit 63 x\<bar> = x"
proof (cases "x = 2 ^ 63")
  case True
  then show ?thesis by simp
next
  case False
  with assms have "x < 2 ^ 63" by simp
  with assms have "signed_take_bit 63 x = x"
    by (simp add: signed_take_bit_int_eq_self)
  with assms show ?thesis by simp
qed

lemma sint_divisor:
  "sint (mx - mn + 1 :: go_int) = signed_take_bit 63 (sint mx - sint mn + 1)"
proof -
  have "mx - mn + 1 = (word_of_int (sint mx - sint mn + 1) :: go_int)"
    by simp
  then show ?thesis by (simp only: sint_sbintrunc') simp
qed

subsection \<open>The throttle delay\<close>

lemma throttle_off: "\<not> 0 <s ThrottleMaxMs cfg \<Longrightarrow> throttleDelay cfg nano = Inr None"
  by (simp add: throttleDelay_def)

lemma throttle_fixed:
  "0 <s ThrottleMaxMs cfg \<Longrightarrow> ThrottleMinMs cfg = ThrottleMaxMs cfg \<Longrightarrow>
   throttleDelay cfg nano = Inr (Some (ThrottleMaxMs cfg))"
  by (simp add: throttleDelay_def)

lemma throttle_equal_bounds:
  assumes "ThrottleMinMs cfg = ThrottleMaxMs cfg" "0 \<le>s ThrottleMaxMs cfg"
  shows "\<exists>d. throttleDelay cfg nano = Inr d \<and> delayMs d = sint (ThrottleMaxMs cfg)"
proof (cases "0 <s ThrottleMaxMs cfg")
  case True
  with assms show ?thesis by (simp add: throttle_fixed delayMs_def)
next
  case False
  with assms(2) have "sint (ThrottleMaxMs cfg) = 0"
    by (simp add: word_sle_eq word_sless_alt)
  with False show ?thesis by (simp add: throttle_off delayMs_def)
qed

lemma throttle_in_range:
  assumes mn: "0 \<le>s ThrottleMinMs cfg" and lt: "ThrottleMinMs cfg <s ThrottleMaxMs cfg"
    and nn: "0 \<le>s nano"
  shows "\<exists>d. throttleDelay cfg nano = Inr (Some d) \<and>
           ThrottleMinMs cfg \<le>s d \<and> d \<le>s ThrottleMaxMs cfg"
proof -
  define m where "m = sint (ThrottleMinMs cfg)"
  define M where "M = sint (ThrottleMaxMs cfg)"
  define n where "n = sint nano"
  define k where "k = ThrottleMaxMs cfg - ThrottleMinMs cfg + 1"
  have m0: "0 \<le> m" and mM: "m < M" and n0: "0 \<le> n"
    using mn lt nn by (simp_all add: m_def M_def n_def word_sle_eq word_sless_alt)
  have Mb: "M < 2 ^ 63"
    using sint64_bounds [of "ThrottleMaxMs cfg"] by (simp add: M_def)
  have absk: "\<bar>sint k\<bar> = M - m + 1"
    unfolding k_def sint_divisor m_def [symmetric] M_def [symmetric]
    using m0 mM Mb by (intro abs_signed_take_bit_63) simp_all
  then have k0: "k \<noteq> 0" using mM by auto
  have sk0: "sint k \<noteq> 0" using absk mM by auto
  define r where "r = n smod sint k"
  have r0: "0 \<le> r" and rK: "r < \<bar>sint k\<bar>"
    using smod_nonneg_bounds [OF n0 sk0] by (simp_all add: r_def)
  have rM: "r \<le> M - m" using rK absk by simp
  define d where "d = ThrottleMinMs cfg + word_of_int r"
  have sr: "sint (word_of_int r :: go_int) = r"
    using r0 rM m0 Mb by (intro sint64_of_int) simp_all
  have sd: "sint d = m + r"
    unfolding d_def sint_word_add sr m_def [symmetric]
    using r0 rM m0 Mb by (simp add: signed_take_bit_int_eq_self)
  have ne: "ThrottleMinMs cfg \<noteq> ThrottleMaxMs cfg" using mM by (auto simp: m_def M_def)
  have pos: "0 <s ThrottleMaxMs cfg" using m0 mM by (simp add: word_sless_alt M_def)
  have "throttleDelay cfg nano = Inr (Some d)"
    using ne pos k0 by (simp add: throttleDelay_def go_rem_def k_def [symmetric] d_def r_def n_def)
  moreover have "ThrottleMinMs cfg \<le>s d" using sd r0 by (simp add: word_sle_eq m_def)
  moreover have "d \<le>s ThrottleMaxMs cfg" using sd rM by (simp add: word_sle_eq M_def)
  ultimately show ?thesis by blast
qed

text \<open>
  C4. The computed throttle delay. With \<^verbatim>\<open>ThrottleMaxMs\<close> equal to 0 no delay is computed
  and \<^verbatim>\<open>time.Sleep\<close> is not called, whatever \<^verbatim>\<open>ThrottleMinMs\<close> is: the middleware is the
  next handler. With equal bounds (non-negative, as a throttle policy has them) the delay
  is that value. With \<open>0 \<le> minMs < maxMs\<close> the delay lies in \<open>[minMs, maxMs]\<close>, for
  every reading of a clock that stands at or after the Unix epoch
  (\<^verbatim>\<open>UnixNano\<close> not negative).
\<close>

theorem throttle_delay_bounds:
  "(ThrottleMaxMs cfg = 0 \<longrightarrow> throttleDelay cfg nano = Inr None) \<and>
   (ThrottleMaxMs (config w) = 0 \<longrightarrow> throttleMiddleware next r w = next r w) \<and>
   (ThrottleMinMs cfg = ThrottleMaxMs cfg \<and> 0 \<le>s ThrottleMaxMs cfg \<longrightarrow>
      (\<exists>d. throttleDelay cfg nano = Inr d \<and> delayMs d = sint (ThrottleMaxMs cfg))) \<and>
   (0 \<le>s ThrottleMinMs cfg \<and> ThrottleMinMs cfg <s ThrottleMaxMs cfg \<and> 0 \<le>s nano \<longrightarrow>
      (\<exists>d. throttleDelay cfg nano = Inr (Some d) \<and>
            ThrottleMinMs cfg \<le>s d \<and> d \<le>s ThrottleMaxMs cfg))"
proof (intro conjI impI)
  assume "ThrottleMaxMs cfg = 0"
  then show "throttleDelay cfg nano = Inr None" by (simp add: throttle_off)
next
  assume "ThrottleMaxMs (config w) = 0"
  then show "throttleMiddleware next r w = next r w"
    by (simp add: throttleMiddleware_def throttle_off)
next
  assume "ThrottleMinMs cfg = ThrottleMaxMs cfg \<and> 0 \<le>s ThrottleMaxMs cfg"
  then show "\<exists>d. throttleDelay cfg nano = Inr d \<and> delayMs d = sint (ThrottleMaxMs cfg)"
    by (simp add: throttle_equal_bounds)
next
  assume "0 \<le>s ThrottleMinMs cfg \<and> ThrottleMinMs cfg <s ThrottleMaxMs cfg \<and> 0 \<le>s nano"
  then show "\<exists>d. throttleDelay cfg nano = Inr (Some d) \<and>
                 ThrottleMinMs cfg \<le>s d \<and> d \<le>s ThrottleMaxMs cfg"
    by (simp add: throttle_in_range)
qed

theorem throttle_delay_bounds_witness:
  "throttleDelay (defaultConfig\<lparr> ThrottleMinMs := 7, ThrottleMaxMs := 0 \<rparr>) 1234567 = Inr None \<and>
   (\<exists>d. throttleDelay (defaultConfig\<lparr> ThrottleMinMs := 200, ThrottleMaxMs := 200 \<rparr>) 1234567 = Inr d
         \<and> delayMs d = 200) \<and>
   (\<exists>d. throttleDelay (defaultConfig\<lparr> ThrottleMinMs := 100, ThrottleMaxMs := 500 \<rparr>) 1234567
           = Inr (Some d) \<and> 100 \<le>s d \<and> d \<le>s 500)"
proof -
  let ?off = "defaultConfig\<lparr> ThrottleMinMs := 7, ThrottleMaxMs := 0 \<rparr>"
  let ?fixed = "defaultConfig\<lparr> ThrottleMinMs := 200, ThrottleMaxMs := 200 \<rparr>"
  let ?range = "defaultConfig\<lparr> ThrottleMinMs := 100, ThrottleMaxMs := 500 \<rparr>"
  have h1: "ThrottleMaxMs ?off = 0" by simp
  have h2: "ThrottleMinMs ?fixed = ThrottleMaxMs ?fixed \<and> 0 \<le>s ThrottleMaxMs ?fixed"
    by (simp add: word_sle_eq)
  have h3: "0 \<le>s ThrottleMinMs ?range \<and> ThrottleMinMs ?range <s ThrottleMaxMs ?range
              \<and> 0 \<le>s (1234567 :: go_int)"
    by (simp add: word_sle_eq word_sless_alt)
  show ?thesis
    using h1 h2 h3
      throttle_delay_bounds [of ?off 1234567]
      throttle_delay_bounds [of ?fixed 1234567]
      throttle_delay_bounds [of ?range 1234567]
    by simp
qed

lemma divisor_zero:
  assumes "sint (ThrottleMinMs cfg) = sint (ThrottleMaxMs cfg) + 1"
  shows "ThrottleMaxMs cfg - ThrottleMinMs cfg + 1 = 0"
proof -
  have "ThrottleMinMs cfg = word_of_int (sint (ThrottleMinMs cfg))" by simp
  also have "\<dots> = word_of_int (sint (ThrottleMaxMs cfg) + 1)" by (simp only: assms)
  also have "\<dots> = ThrottleMaxMs cfg + 1" by simp
  finally show ?thesis by simp
qed

lemma throttle_div_by_zero:
  assumes "0 <s ThrottleMaxMs cfg" "sint (ThrottleMinMs cfg) = sint (ThrottleMaxMs cfg) + 1"
  shows "throttleDelay cfg nano = Inl DivideByZero"
proof -
  have "ThrottleMinMs cfg \<noteq> ThrottleMaxMs cfg" using assms(2) by auto
  then show ?thesis
    using assms(1) divisor_zero [OF assms(2)] by (simp add: throttleDelay_def go_rem_def)
qed

lemma throttle_above_max:
  assumes pos: "0 <s ThrottleMaxMs cfg"
    and gt: "sint (ThrottleMaxMs cfg) + 1 < sint (ThrottleMinMs cfg)"
    and nn: "0 \<le>s nano"
    and nov: "sint (ThrottleMinMs cfg)
                + sint nano smod (sint (ThrottleMaxMs cfg) - sint (ThrottleMinMs cfg) + 1) < 2 ^ 63"
  shows "\<exists>d. throttleDelay cfg nano = Inr (Some d) \<and>
           sint d = sint (ThrottleMinMs cfg)
                      + sint nano smod (sint (ThrottleMaxMs cfg) - sint (ThrottleMinMs cfg) + 1) \<and>
           ThrottleMaxMs cfg <s d"
proof -
  define m where "m = sint (ThrottleMinMs cfg)"
  define M where "M = sint (ThrottleMaxMs cfg)"
  define n where "n = sint nano"
  define k where "k = ThrottleMaxMs cfg - ThrottleMinMs cfg + 1"
  have M0: "0 < M" and Mm: "M + 1 < m" and n0: "0 \<le> n"
    using pos gt nn by (simp_all add: m_def M_def n_def word_sle_eq word_sless_alt)
  have mb: "m < 2 ^ 63" and nb: "n < 2 ^ 63"
    using sint64_bounds [of "ThrottleMinMs cfg"] sint64_bounds [of nano]
    by (simp_all add: m_def n_def)
  have sk: "sint k = M - m + 1"
    unfolding k_def sint_divisor m_def [symmetric] M_def [symmetric]
    using M0 Mm mb by (intro signed_take_bit_int_eq_self) simp_all
  then have sk0: "sint k \<noteq> 0" using Mm by simp
  then have k0: "k \<noteq> 0" by auto
  define r where "r = n smod (M - m + 1)"
  have r0: "0 \<le> r" and rn: "r \<le> n"
    using smod_nonneg_bounds [OF n0, of "M - m + 1"] Mm by (simp_all add: r_def)
  have mr: "m + r < 2 ^ 63" using nov by (simp add: m_def M_def n_def r_def)
  define d where "d = ThrottleMinMs cfg + word_of_int r"
  have sr: "sint (word_of_int r :: go_int) = r"
    using r0 rn nb by (intro sint64_of_int) simp_all
  have sd: "sint d = m + r"
    unfolding d_def sint_word_add sr m_def [symmetric]
    using r0 mr M0 Mm by (simp add: signed_take_bit_int_eq_self)
  have ne: "ThrottleMinMs cfg \<noteq> ThrottleMaxMs cfg" using Mm by (auto simp: m_def M_def)
  have "throttleDelay cfg nano = Inr (Some d)"
    using ne pos k0 sk
    by (simp add: throttleDelay_def go_rem_def k_def [symmetric] d_def r_def n_def)
  moreover have "sint d = m + r" by (fact sd)
  moreover have "ThrottleMaxMs cfg <s d" using sd r0 Mm by (simp add: word_sless_alt M_def)
  ultimately show ?thesis unfolding m_def M_def n_def r_def by blast
qed

lemma throttle_modulo:
  assumes "0 <s ThrottleMaxMs cfg" "ThrottleMinMs cfg \<noteq> ThrottleMaxMs cfg"
    "ThrottleMaxMs cfg - ThrottleMinMs cfg + 1 \<noteq> 0"
  shows "throttleDelay cfg nano =
           Inr (Some (ThrottleMinMs cfg
                        + word_of_int (sint nano smod sint (ThrottleMaxMs cfg - ThrottleMinMs cfg + 1))))"
  using assms by (simp add: throttleDelay_def go_rem_def)

text \<open>
  With \<open>minMs \<le> maxMs\<close> the divisor \<open>maxMs - minMs + 1\<close> lies in \<open>[1, 2 ^ 64]\<close>; it
  is zero as a 64-bit integer only at the two ends of the range together.
\<close>

lemma throttle_total:
  assumes le: "ThrottleMinMs cfg \<le>s ThrottleMaxMs cfg"
    and corner: "sint (ThrottleMaxMs cfg) - sint (ThrottleMinMs cfg) < 2 ^ 64 - 1"
  shows "\<exists>d. throttleDelay cfg nano = Inr d"
proof -
  define x where "x = sint (ThrottleMaxMs cfg) - sint (ThrottleMinMs cfg) + 1"
  have x0: "0 < x" and xb: "x < 2 ^ 64"
    using le corner by (simp_all add: x_def word_sle_eq)
  have "\<not> (2 ^ 64 :: int) dvd x"
    using x0 xb by (simp add: zdvd_not_zless)
  moreover have "ThrottleMaxMs cfg - ThrottleMinMs cfg + 1 = (word_of_int x :: go_int)"
    by (simp add: x_def)
  ultimately have "ThrottleMaxMs cfg - ThrottleMinMs cfg + 1 \<noteq> 0"
    by (simp add: word_of_int_eq_0_iff)
  then show ?thesis
    by (simp add: throttleDelay_def go_rem_def)
qed

text \<open>
  C9. When \<^verbatim>\<open>ThrottleMaxMs > 0\<close> and the bounds differ, the delay is \<^verbatim>\<open>ThrottleMinMs\<close> plus
  the clock reading modulo \<open>ThrottleMaxMs - ThrottleMinMs + 1\<close>. For
  \<open>ThrottleMinMs = ThrottleMaxMs + 1\<close> that divisor is zero and the computation panics
  (integer divide by zero) instead of returning. For \<open>ThrottleMinMs > ThrottleMaxMs + 1\<close>
  it returns a delay above \<^verbatim>\<open>ThrottleMaxMs\<close> (for a clock at or after the epoch, when the
  sum does not overflow). With \<open>ThrottleMinMs \<le> ThrottleMaxMs\<close> it always returns (the
  difference of the bounds below \<open>2 ^ 64 - 1\<close>, that is, not both ends of the 64-bit range).
\<close>

theorem throttle_delay_partial:
  "(0 <s ThrottleMaxMs cfg \<and> ThrottleMinMs cfg \<noteq> ThrottleMaxMs cfg \<and>
      ThrottleMaxMs cfg - ThrottleMinMs cfg + 1 \<noteq> 0 \<longrightarrow>
      throttleDelay cfg nano =
        Inr (Some (ThrottleMinMs cfg
                     + word_of_int (sint nano smod sint (ThrottleMaxMs cfg - ThrottleMinMs cfg + 1))))) \<and>
   (0 <s ThrottleMaxMs cfg \<and> sint (ThrottleMinMs cfg) = sint (ThrottleMaxMs cfg) + 1 \<longrightarrow>
      ThrottleMaxMs cfg - ThrottleMinMs cfg + 1 = 0 \<and>
      throttleDelay cfg nano = Inl DivideByZero) \<and>
   (0 <s ThrottleMaxMs cfg \<and> sint (ThrottleMaxMs cfg) + 1 < sint (ThrottleMinMs cfg) \<and>
      0 \<le>s nano \<and>
      sint (ThrottleMinMs cfg)
        + sint nano smod (sint (ThrottleMaxMs cfg) - sint (ThrottleMinMs cfg) + 1) < 2 ^ 63 \<longrightarrow>
      (\<exists>d. throttleDelay cfg nano = Inr (Some d) \<and>
            sint d = sint (ThrottleMinMs cfg)
                       + sint nano smod (sint (ThrottleMaxMs cfg) - sint (ThrottleMinMs cfg) + 1) \<and>
            ThrottleMaxMs cfg <s d)) \<and>
   (ThrottleMinMs cfg \<le>s ThrottleMaxMs cfg \<and>
      sint (ThrottleMaxMs cfg) - sint (ThrottleMinMs cfg) < 2 ^ 64 - 1 \<longrightarrow>
      (\<exists>d. throttleDelay cfg nano = Inr d))"
proof (intro conjI impI)
  assume "0 <s ThrottleMaxMs cfg \<and> ThrottleMinMs cfg \<noteq> ThrottleMaxMs cfg \<and>
          ThrottleMaxMs cfg - ThrottleMinMs cfg + 1 \<noteq> 0"
  then show "throttleDelay cfg nano =
        Inr (Some (ThrottleMinMs cfg
                     + word_of_int (sint nano smod sint (ThrottleMaxMs cfg - ThrottleMinMs cfg + 1))))"
    by (simp add: throttle_modulo)
next
  assume "0 <s ThrottleMaxMs cfg \<and> sint (ThrottleMinMs cfg) = sint (ThrottleMaxMs cfg) + 1"
  then show "ThrottleMaxMs cfg - ThrottleMinMs cfg + 1 = 0"
    by (simp add: divisor_zero)
next
  assume "0 <s ThrottleMaxMs cfg \<and> sint (ThrottleMinMs cfg) = sint (ThrottleMaxMs cfg) + 1"
  then show "throttleDelay cfg nano = Inl DivideByZero"
    by (simp add: throttle_div_by_zero)
next
  assume "0 <s ThrottleMaxMs cfg \<and> sint (ThrottleMaxMs cfg) + 1 < sint (ThrottleMinMs cfg) \<and>
      0 \<le>s nano \<and>
      sint (ThrottleMinMs cfg)
        + sint nano smod (sint (ThrottleMaxMs cfg) - sint (ThrottleMinMs cfg) + 1) < 2 ^ 63"
  then show "\<exists>d. throttleDelay cfg nano = Inr (Some d) \<and>
            sint d = sint (ThrottleMinMs cfg)
                       + sint nano smod (sint (ThrottleMaxMs cfg) - sint (ThrottleMinMs cfg) + 1) \<and>
            ThrottleMaxMs cfg <s d"
    by (intro throttle_above_max) simp_all
next
  assume "ThrottleMinMs cfg \<le>s ThrottleMaxMs cfg \<and>
      sint (ThrottleMaxMs cfg) - sint (ThrottleMinMs cfg) < 2 ^ 64 - 1"
  then show "\<exists>d. throttleDelay cfg nano = Inr d"
    by (intro throttle_total) simp_all
qed

theorem throttle_delay_partial_witness:
  "throttleDelay (defaultConfig\<lparr> ThrottleMinMs := 100, ThrottleMaxMs := 500 \<rparr>) 1234567
     = Inr (Some 389) \<and>
   throttleDelay (defaultConfig\<lparr> ThrottleMinMs := 501, ThrottleMaxMs := 500 \<rparr>) 1234567
     = Inl DivideByZero \<and>
   (\<exists>d. throttleDelay (defaultConfig\<lparr> ThrottleMinMs := 600, ThrottleMaxMs := 500 \<rparr>) 1234567
           = Inr (Some d) \<and> sint d = 637 \<and> 500 <s d) \<and>
   (\<exists>d. throttleDelay (defaultConfig\<lparr> ThrottleMinMs := 0, ThrottleMaxMs := 500 \<rparr>) 1234567
           = Inr d)"
proof -
  let ?ok = "defaultConfig\<lparr> ThrottleMinMs := 100, ThrottleMaxMs := 500 \<rparr>"
  let ?zero = "defaultConfig\<lparr> ThrottleMinMs := 501, ThrottleMaxMs := 500 \<rparr>"
  let ?above = "defaultConfig\<lparr> ThrottleMinMs := 600, ThrottleMaxMs := 500 \<rparr>"
  let ?from0 = "defaultConfig\<lparr> ThrottleMinMs := 0, ThrottleMaxMs := 500 \<rparr>"
  have h1: "0 <s ThrottleMaxMs ?ok \<and> ThrottleMinMs ?ok \<noteq> ThrottleMaxMs ?ok \<and>
            ThrottleMaxMs ?ok - ThrottleMinMs ?ok + 1 \<noteq> 0"
    by (simp add: word_sless_alt)
  have h2: "0 <s ThrottleMaxMs ?zero \<and> sint (ThrottleMinMs ?zero) = sint (ThrottleMaxMs ?zero) + 1"
    by (simp add: word_sless_alt)
  have h3: "0 <s ThrottleMaxMs ?above \<and> sint (ThrottleMaxMs ?above) + 1 < sint (ThrottleMinMs ?above) \<and>
            0 \<le>s (1234567 :: go_int) \<and>
            sint (ThrottleMinMs ?above)
              + sint (1234567 :: go_int) smod (sint (ThrottleMaxMs ?above) - sint (ThrottleMinMs ?above) + 1)
              < 2 ^ 63"
    by (simp add: word_sless_alt word_sle_eq smod_int_alt_def)
  have h4: "ThrottleMinMs ?from0 \<le>s ThrottleMaxMs ?from0 \<and>
            sint (ThrottleMaxMs ?from0) - sint (ThrottleMinMs ?from0) < 2 ^ 64 - 1"
    by (simp add: word_sle_eq)
  have c1: "throttleDelay ?ok 1234567 = Inr (Some 389)"
    using h1 throttle_delay_partial [of ?ok 1234567] by (simp add: smod_int_alt_def)
  have c2: "throttleDelay ?zero 1234567 = Inl DivideByZero"
    using h2 throttle_delay_partial [of ?zero 1234567] by simp
  have c3: "\<exists>d. throttleDelay ?above 1234567 = Inr (Some d) \<and> sint d = 637 \<and> 500 <s d"
    using h3 throttle_delay_partial [of ?above 1234567] by (simp add: smod_int_alt_def)
  have c4: "\<exists>d. throttleDelay ?from0 1234567 = Inr d"
    using h4 throttle_delay_partial [of ?from0 1234567] by simp
  show ?thesis using c1 c2 c3 c4 by blast
qed

subsection \<open>Configuration loading and start-up\<close>

















lemma Atoi_10: "Atoi ''10'' = (10, None)"
  by (simp add: Atoi_def fastAtoi_def digit_val_def)

lemma Atoi_1: "Atoi ''1'' = (1, None)"
  by (simp add: Atoi_def fastAtoi_def digit_val_def)



lemma loadConfig_fields:
  "RateLimitRequests (loadConfig env) = fst (Atoi (getEnv env ''RATE_LIMIT_REQUESTS'' ''10''))"
  "RateLimitPeriod (loadConfig env) = fst (Atoi (getEnv env ''RATE_LIMIT_PERIOD'' ''1''))"
  "ThrottleMinMs (loadConfig env) = fst (Atoi (getEnv env ''THROTTLE_MIN_MS'' ''0''))"
  "ThrottleMaxMs (loadConfig env) = fst (Atoi (getEnv env ''THROTTLE_MAX_MS'' ''0''))"
  by (simp_all add: loadConfig_def Let_def)



lemma pingLoop_first_ok: "ping i = None \<Longrightarrow> pingLoop ping i (Suc k) err = (None, 0)"
  by simp

lemma initDB_healthy: "initDB cfg healthyPostgres = (None, 0)"
proof -
  have "pingLoop (\<lambda>i. None) 0 30 None = (None, 0)"
    using pingLoop_first_ok [of "\<lambda>i. None" 0 29 None] by simp
  then show ?thesis by (simp add: initDB_def healthyPostgres_def)
qed



lemma main_Serving:
  assumes "main env now pg listen = Serving w"
  shows "config w = loadConfig env"
    "limiter w = NewLimiter
       (float_div (sint (RateLimitRequests (loadConfig env)))
                  (sint (RateLimitPeriod (loadConfig env))))
       (sint (RateLimitRequests (loadConfig env)))
       (real_of_int now / 1000000000)"
    "resp w = emptyResponse" "dbPing w = None" "now \<le> clock w"
proof -
  obtain err n where i: "initDB (loadConfig env) pg = (err, n)"
    by (cases "initDB (loadConfig env) pg")
  from assms i have w: "w = \<lparr> config = loadConfig env,
        limiter = NewLimiter
          (float_div (sint (RateLimitRequests (loadConfig env)))
                     (sint (RateLimitPeriod (loadConfig env))))
          (sint (RateLimitRequests (loadConfig env))) (real_of_int now / 1000000000),
        dbPing = None, clock = now + int n * 2000000000, resp = emptyResponse,
        trace = replicate n (Sleep 2000000000) \<rparr>"
    by (cases err; cases "listen ('':'' @ Port (loadConfig env))") (auto simp: main_def Let_def)
  show "config w = loadConfig env"
    "limiter w = NewLimiter
       (float_div (sint (RateLimitRequests (loadConfig env)))
                  (sint (RateLimitPeriod (loadConfig env))))
       (sint (RateLimitRequests (loadConfig env)))
       (real_of_int now / 1000000000)"
    "resp w = emptyResponse" "dbPing w = None" "now \<le> clock w"
    by (simp_all add: w)
qed

lemma main_serving:
  "main env now healthyPostgres listening =
     Serving \<lparr> config = loadConfig env,
               limiter = NewLimiter
                 (float_div (sint (RateLimitRequests (loadConfig env)))
                            (sint (RateLimitPeriod (loadConfig env))))
                 (sint (RateLimitRequests (loadConfig env)))
                 (real_of_int now / 1000000000),
               dbPing = None, clock = now, resp = emptyResponse, trace = [] \<rparr>"
  by (simp add: main_def Let_def initDB_healthy listening_def)









subsection \<open>The token bucket\<close>

lemma TryAcquire_Finite:
  "limit l = Finite x \<Longrightarrow>
   TryAcquire now l =
     (let t = min (real_of_int (burst l)) (tokens l + (now - last l) * x)
      in if 1 \<le> t then (True, l\<lparr> tokens := t - 1, last := now \<rparr>) else (False, l))"
  by (simp add: TryAcquire_def gained_def Let_def)

lemma acquireN_drain:
  assumes "limit l = Finite x" "last l = now" "tokens l = real n"
    "real n \<le> real_of_int (burst l)"
  shows "acquireN n now l = (replicate n True, l\<lparr> tokens := 0 \<rparr>)"
  using assms
proof (induction n arbitrary: l)
  case 0
  then show ?case by (cases l) simp
next
  case (Suc n)
  define l1 where "l1 = l\<lparr> tokens := real n, last := now \<rparr>"
  have m: "min (real_of_int (burst l)) (tokens l + (now - last l) * x) = real n + 1"
    using Suc.prems by simp
  have "TryAcquire now l =
          (if 1 \<le> real n + 1 then (True, l\<lparr> tokens := real n + 1 - 1, last := now \<rparr>)
           else (False, l))"
    unfolding TryAcquire_Finite [OF Suc.prems(1)] Let_def m ..
  then have step: "TryAcquire now l = (True, l1)"
    by (simp add: l1_def)
  have "acquireN n now l1 = (replicate n True, l1\<lparr> tokens := 0 \<rparr>)"
    using Suc.prems by (intro Suc.IH) (simp_all add: l1_def)
  moreover have "l1\<lparr> tokens := 0 \<rparr> = l\<lparr> tokens := 0 \<rparr>"
    using Suc.prems(2) by (cases l) (simp add: l1_def)
  ultimately show ?case by (simp add: step)
qed

lemma fresh_burst:
  assumes C: "0 < C" and P: "0 < P" and t: "t0 \<le> t"
  shows "acquireN (nat C) t (NewLimiter (float_div C P) C t0)
           = (replicate (nat C) True,
              \<lparr> limit = Finite (real_of_int C / real_of_int P), burst = C, tokens = 0, last = t \<rparr>)"
proof -
  define x where "x = real_of_int C / real_of_int P"
  define l0 where "l0 = NewLimiter (float_div C P) C t0"
  obtain n where n: "nat C = Suc n" using C by (cases "nat C") auto
  then have Cn: "real_of_int C = real n + 1" using C by linarith
  have x0: "0 \<le> x" using C P by (simp add: x_def)
  have l0: "l0 = \<lparr> limit = Finite x, burst = C, tokens = real_of_int C, last = t0 \<rparr>"
    using P by (simp add: l0_def NewLimiter_def float_div_def x_def)
  define l1 where "l1 = \<lparr> limit = Finite x, burst = C, tokens = real n, last = t \<rparr>"
  have "0 \<le> (t - t0) * x" using t x0 by simp
  then have m: "min (real_of_int (burst l0)) (tokens l0 + (t - last l0) * x) = real n + 1"
    by (simp add: l0 Cn)
  have lim: "limit l0 = Finite x" by (simp add: l0)
  have "TryAcquire t l0 =
          (if 1 \<le> real n + 1 then (True, l0\<lparr> tokens := real n + 1 - 1, last := t \<rparr>)
           else (False, l0))"
    unfolding TryAcquire_Finite [OF lim] Let_def m ..
  then have step: "TryAcquire t l0 = (True, l1)"
    by (simp add: l0 l1_def)
  have "acquireN n t l1 = (replicate n True, l1\<lparr> tokens := 0 \<rparr>)"
    by (rule acquireN_drain [where x = x]) (simp_all add: l1_def Cn)
  then have "acquireN (Suc n) t l0 = (replicate (Suc n) True, l1\<lparr> tokens := 0 \<rparr>)"
    by (simp add: step)
  then show ?thesis by (simp add: n l0_def [symmetric] l1_def x_def)
qed

lemma empty_bucket_rejects:
  assumes "0 < C" "t \<le> t'" "(t' - t) * x < 1"
  shows "\<not> fst (TryAcquire t' \<lparr> limit = Finite x, burst = C, tokens = 0, last = t \<rparr>)"
  using assms by (simp add: TryAcquire_def Let_def gained_def)

text \<open>
  C2. The limiter that \<^verbatim>\<open>main\<close> builds from a capacity \<open>C > 0\<close> and a period \<open>P > 0\<close> starts
  with \<open>C\<close> tokens. \<open>C\<close> calls at one clock reading \<open>t\<close> (at or after start-up) are all
  admitted, and the call after them is rejected at every time \<open>t'\<close> from \<open>t\<close> on at which
  less than one token has been refilled, \<open>(t' - t) * C / P < 1\<close>; the same instant is
  one such time.
\<close>

theorem fresh_bucket_burst:
  assumes "main env now pg listen = Serving w"
    and "0 < sint (RateLimitRequests (loadConfig env))"
    and "0 < sint (RateLimitPeriod (loadConfig env))"
    and "real_of_int now / 1000000000 \<le> t"
  shows "tokens (limiter w) = real_of_int (sint (RateLimitRequests (loadConfig env))) \<and>
         fst (acquireN (nat (sint (RateLimitRequests (loadConfig env)))) t (limiter w))
           = replicate (nat (sint (RateLimitRequests (loadConfig env)))) True \<and>
         (\<forall>t'. t \<le> t' \<and>
                (t' - t) * (real_of_int (sint (RateLimitRequests (loadConfig env)))
                              / real_of_int (sint (RateLimitPeriod (loadConfig env)))) < 1 \<longrightarrow>
            \<not> fst (TryAcquire t'
                     (snd (acquireN (nat (sint (RateLimitRequests (loadConfig env)))) t
                             (limiter w)))))"
proof -
  define C where "C = sint (RateLimitRequests (loadConfig env))"
  define P where "P = sint (RateLimitPeriod (loadConfig env))"
  define l0 where "l0 = limiter w"
  have l0: "l0 = NewLimiter (float_div C P) C (real_of_int now / 1000000000)"
    unfolding l0_def C_def P_def by (rule main_Serving(2) [OF assms(1)])
  have C: "0 < C" and P: "0 < P" using assms by (simp_all add: C_def P_def)
  have run: "acquireN (nat C) t l0
               = (replicate (nat C) True,
                  \<lparr> limit = Finite (real_of_int C / real_of_int P), burst = C, tokens = 0, last = t \<rparr>)"
    unfolding l0 using C P assms(4) by (rule fresh_burst)
  have "tokens l0 = real_of_int C" by (simp add: l0 NewLimiter_def)
  moreover have "fst (acquireN (nat C) t l0) = replicate (nat C) True" by (simp add: run)
  moreover have "\<forall>t'. t \<le> t' \<and> (t' - t) * (real_of_int C / real_of_int P) < 1 \<longrightarrow>
                   \<not> fst (TryAcquire t' (snd (acquireN (nat C) t l0)))"
    using C by (simp add: run empty_bucket_rejects)
  ultimately show ?thesis unfolding C_def P_def l0_def by blast
qed

theorem fresh_bucket_burst_witness:
  "tokens (limiter (world (main (\<lambda>k. []) 0 healthyPostgres listening))) = 10 \<and>
   fst (acquireN 10 0 (limiter (world (main (\<lambda>k. []) 0 healthyPostgres listening))))
     = replicate 10 True \<and>
   \<not> fst (TryAcquire 0
            (snd (acquireN 10 0 (limiter (world (main (\<lambda>k. []) 0 healthyPostgres listening)))))) \<and>
   \<not> fst (TryAcquire (1 / 20)
            (snd (acquireN 10 0 (limiter (world (main (\<lambda>k. []) 0 healthyPostgres listening))))))"
proof -
  let ?env = "\<lambda>k::string. []::string"
  let ?w = "world (main ?env 0 healthyPostgres listening)"
  have c: "RateLimitRequests (loadConfig ?env) = 10" "RateLimitPeriod (loadConfig ?env) = 1"
    by (simp_all add: loadConfig_fields getEnv_def Atoi_10 Atoi_1)
  have h0: "main ?env 0 healthyPostgres listening = Serving ?w"
    by (simp add: main_serving)
  have h1: "0 < sint (RateLimitRequests (loadConfig ?env))"
    and h2: "0 < sint (RateLimitPeriod (loadConfig ?env))"
    and h3: "real_of_int 0 / 1000000000 \<le> (0::real)"
    by (simp_all add: c)
  note th = fresh_bucket_burst [OF h0 h1 h2 h3]
  have a: "tokens (limiter ?w) = 10"
    using th by (simp add: c)
  have b: "fst (acquireN 10 0 (limiter ?w)) = replicate 10 True"
    using th by (simp add: c)
  have r: "\<forall>t'. (0::real) \<le> t' \<and> (t' - 0) * (10 / 1) < 1 \<longrightarrow>
            \<not> fst (TryAcquire t' (snd (acquireN 10 0 (limiter ?w))))"
    using th by (simp add: c)
  have r0: "\<not> fst (TryAcquire 0 (snd (acquireN 10 0 (limiter ?w))))"
    using r [rule_format, of 0] by simp
  have r1: "\<not> fst (TryAcquire (1 / 20) (snd (acquireN 10 0 (limiter ?w))))"
    using r [rule_format, of "1 / 20"] by simp
  show ?thesis using a b r0 r1 by blast
qed

subsection \<open>The pipeline\<close>

lemma sint_Millisecond: "sint Millisecond = 1000000"
  by (simp add: Millisecond_def)

lemma sleepNs_nonneg: "0 \<le> sleepNs d"
  by (simp add: sleepNs_def split: option.splits)

lemma sleepNs_full:
  assumes "0 \<le> delayMs d" "delayMs d * 1000000 < 2 ^ 63"
  shows "sleepNs d = delayMs d * 1000000"
proof (cases d)
  case None
  then show ?thesis by (simp add: sleepNs_def delayMs_def)
next
  case (Some v)
  with assms have v: "0 \<le> sint v" "sint v * 1000000 < 2 ^ 63"
    by (simp_all add: delayMs_def)
  then have "- (2 ^ 63) \<le> sint v * 1000000" by simp
  with v have "signed_take_bit 63 (sint v * 1000000) = sint v * 1000000"
    by (intro signed_take_bit_int_eq_self) simp_all
  then have "sint (v * Millisecond) = sint v * 1000000"
    by (simp add: sint_word_ariths sint_Millisecond)
  with v Some show ?thesis by (simp add: sleepNs_def delayMs_def)
qed

lemma throttle_then_next:
  assumes "throttleDelay (config w) (UnixNano w) = Inr d"
  shows "throttleMiddleware next r w
           = next r (w\<lparr> clock := clock w + sleepNs d, trace := trace w @ sleepEvents d \<rparr>)"
proof (cases d)
  case None
  with assms show ?thesis
    by (simp add: throttleMiddleware_def sleepNs_def sleepEvents_def)
next
  case (Some v)
  with assms show ?thesis
    by (simp add: throttleMiddleware_def sleepNs_def sleepEvents_def timeSleep_def)
qed

lemma throttle_panic:
  "throttleDelay (config w) (UnixNano w) = Inl p \<Longrightarrow> throttleMiddleware next r w = Inl p"
  by (simp add: throttleMiddleware_def)

lemma rateLimit_cases:
  "rateLimitMiddleware next r w =
     (let ok = fst (TryAcquire (real_of_int (clock w) / 1000000000) (limiter w));
          w1 = w\<lparr> limiter := snd (TryAcquire (real_of_int (clock w) / 1000000000) (limiter w)),
                  trace := trace w @ [Allow ok] \<rparr>
      in if ok then next r w1 else Inr (w1\<lparr> resp := rateLimited (resp w1) \<rparr>))"
  by (cases "TryAcquire (real_of_int (clock w) / 1000000000) (limiter w)")
    (simp add: rateLimitMiddleware_def limiterAllow_def Let_def)

lemma TryAcquire_reject_state: "\<not> fst (TryAcquire now l) \<Longrightarrow> snd (TryAcquire now l) = l"
  by (auto simp: TryAcquire_def Let_def split: if_splits)

lemma rateLimited_fresh: "rateLimited emptyResponse = tooManyRequests"
  by (simp add: rateLimited_def emptyResponse_def tooManyRequests_def SetHeader_def
      WriteHeader_def Encode_def Write_def Let_def)

lemma combined_unfold:
  "combinedMiddleware next r w = throttleMiddleware (rateLimitMiddleware next) r w"
  by (simp add: combinedMiddleware_def loggingMiddleware_def)

text \<open>
  C1. On a pipeline-wrapped endpoint the throttle stage runs first. When the delay
  computation panics the request ends there and the limiter is never asked. Otherwise the
  request sleeps for the computed delay, whatever the limiter will answer; the limiter is
  asked once, at the clock reading after the sleep; and a rejection is produced in a
  world whose clock stands the whole sleep after the arrival. The sleep is the delay in
  milliseconds times \<open>10 ^ 6\<close> nanoseconds, as long as that product fits
  \<^verbatim>\<open>time.Duration\<close> (64 bits).
\<close>

theorem delay_before_admission:
  "(throttleDelay (config w) (UnixNano w) = Inl p \<longrightarrow> combinedMiddleware next r w = Inl p) \<and>
   (throttleDelay (config w) (UnixNano w) = Inr d \<longrightarrow>
      (\<exists>ok w1.
         combinedMiddleware next r w
           = (if ok then next r w1 else Inr (w1\<lparr> resp := rateLimited (resp w1) \<rparr>)) \<and>
         ok = fst (TryAcquire (real_of_int (clock w + sleepNs d) / 1000000000) (limiter w)) \<and>
         clock w1 = clock w + sleepNs d \<and>
         trace w1 = trace w @ sleepEvents d @ [Allow ok] \<and>
         0 \<le> sleepNs d \<and>
         (0 \<le> delayMs d \<and> delayMs d * 1000000 < 2 ^ 63 \<longrightarrow>
            sleepNs d = delayMs d * 1000000)))"
proof (intro conjI impI)
  assume "throttleDelay (config w) (UnixNano w) = Inl p"
  then show "combinedMiddleware next r w = Inl p"
    by (simp add: combined_unfold throttle_panic)
next
  assume d: "throttleDelay (config w) (UnixNano w) = Inr d"
  define w0 where "w0 = w\<lparr> clock := clock w + sleepNs d, trace := trace w @ sleepEvents d \<rparr>"
  define ok where "ok = fst (TryAcquire (real_of_int (clock w0) / 1000000000) (limiter w0))"
  define w1 where
    "w1 = w0\<lparr> limiter := snd (TryAcquire (real_of_int (clock w0) / 1000000000) (limiter w0)),
              trace := trace w0 @ [Allow ok] \<rparr>"
  have "combinedMiddleware next r w = rateLimitMiddleware next r w0"
    using d by (simp add: combined_unfold throttle_then_next w0_def)
  then have "combinedMiddleware next r w
               = (if ok then next r w1 else Inr (w1\<lparr> resp := rateLimited (resp w1) \<rparr>))"
    by (simp add: rateLimit_cases Let_def ok_def w1_def)
  moreover have "ok = fst (TryAcquire (real_of_int (clock w + sleepNs d) / 1000000000) (limiter w))"
    by (simp add: ok_def w0_def)
  moreover have "clock w1 = clock w + sleepNs d" by (simp add: w1_def w0_def)
  moreover have "trace w1 = trace w @ sleepEvents d @ [Allow ok]" by (simp add: w1_def w0_def)
  moreover have "0 \<le> sleepNs d" by (rule sleepNs_nonneg)
  moreover have "0 \<le> delayMs d \<and> delayMs d * 1000000 < 2 ^ 63 \<longrightarrow>
                   sleepNs d = delayMs d * 1000000"
    by (simp add: sleepNs_full)
  ultimately show "\<exists>ok w1.
         combinedMiddleware next r w
           = (if ok then next r w1 else Inr (w1\<lparr> resp := rateLimited (resp w1) \<rparr>)) \<and>
         ok = fst (TryAcquire (real_of_int (clock w + sleepNs d) / 1000000000) (limiter w)) \<and>
         clock w1 = clock w + sleepNs d \<and>
         trace w1 = trace w @ sleepEvents d @ [Allow ok] \<and>
         0 \<le> sleepNs d \<and>
         (0 \<le> delayMs d \<and> delayMs d * 1000000 < 2 ^ 63 \<longrightarrow>
            sleepNs d = delayMs d * 1000000)"
    by blast
qed

lemma rateLimit_reject:
  assumes "\<not> fst (TryAcquire (real_of_int (clock w) / 1000000000) (limiter w))"
    and "resp w = emptyResponse"
  shows "rateLimitMiddleware next r w
           = Inr (w\<lparr> trace := trace w @ [Allow False], resp := tooManyRequests \<rparr>)"
  using assms
  by (simp add: rateLimit_cases Let_def TryAcquire_reject_state rateLimited_fresh)

lemma combined_reject:
  assumes "throttleDelay (config w) (UnixNano w) = Inr d"
    and "\<not> fst (TryAcquire (real_of_int (clock w + sleepNs d) / 1000000000) (limiter w))"
    and "resp w = emptyResponse"
  shows "combinedMiddleware next r w
           = Inr (w\<lparr> clock := clock w + sleepNs d,
                     trace := trace w @ sleepEvents d @ [Allow False],
                     resp := tooManyRequests \<rparr>)"
  using assms
  by (simp add: combined_unfold throttle_then_next rateLimit_reject)

lemma serve_wrapped:
  assumes "Path r = ''/api/get'' \<or> Path r = ''/api/post'' \<or> Path r = ''/api/db/messages''"
  shows "\<exists>h. serve getH postH dbGetH dbPostH r w
               = combinedMiddleware h r (w\<lparr> resp := emptyResponse \<rparr>)"
  using assms by (auto simp: serve_def routes_def)

text \<open>
  C3. A request that the limiter rejects, arriving with a fresh response writer, ends
  with status 429, the content type \<^verbatim>\<open>application/json\<close> and the one JSON body
  \<^verbatim>\<open>{"error": "Rate limit exceeded. Too many requests."}\<close>. The outcome is the same for
  every downstream handler, which is therefore not run, and the limiter is left as it
  was. This holds for \<^verbatim>\<open>rateLimitMiddleware\<close>, for the whole pipeline, where the limiter
  is asked after the sleep, and for the three routes that the server wraps in the
  pipeline, where the writer is fresh.
\<close>

theorem rejection_is_429:
  "(\<not> fst (TryAcquire (real_of_int (clock w) / 1000000000) (limiter w)) \<and>
      resp w = emptyResponse \<longrightarrow>
      (\<exists>w'. (\<forall>next. rateLimitMiddleware next r w = Inr w') \<and>
             resp w' = tooManyRequests \<and> httpStatus (resp w') = 429 \<and>
             limiter w' = limiter w \<and> trace w' = trace w @ [Allow False])) \<and>
   (throttleDelay (config w) (UnixNano w) = Inr d \<and>
      \<not> fst (TryAcquire (real_of_int (clock w + sleepNs d) / 1000000000) (limiter w)) \<and>
      resp w = emptyResponse \<longrightarrow>
      (\<exists>w'. (\<forall>next. combinedMiddleware next r w = Inr w') \<and>
             resp w' = tooManyRequests \<and> httpStatus (resp w') = 429 \<and>
             limiter w' = limiter w \<and> trace w' = trace w @ sleepEvents d @ [Allow False])) \<and>
   ((Path r = ''/api/get'' \<or> Path r = ''/api/post'' \<or> Path r = ''/api/db/messages'') \<and>
      throttleDelay (config w) (UnixNano w) = Inr d \<and>
      \<not> fst (TryAcquire (real_of_int (clock w + sleepNs d) / 1000000000) (limiter w)) \<longrightarrow>
      (\<exists>w'. (\<forall>getH postH dbGetH dbPostH. serve getH postH dbGetH dbPostH r w = Inr w') \<and>
             resp w' = tooManyRequests \<and> httpStatus (resp w') = 429 \<and>
             limiter w' = limiter w \<and> trace w' = trace w @ sleepEvents d @ [Allow False]))"
proof (intro conjI impI)
  assume a: "\<not> fst (TryAcquire (real_of_int (clock w) / 1000000000) (limiter w)) \<and>
             resp w = emptyResponse"
  define w' where "w' = w\<lparr> trace := trace w @ [Allow False], resp := tooManyRequests \<rparr>"
  have "\<forall>next. rateLimitMiddleware next r w = Inr w'"
    using a by (simp add: rateLimit_reject w'_def)
  moreover have "resp w' = tooManyRequests" "httpStatus (resp w') = 429"
    "limiter w' = limiter w" "trace w' = trace w @ [Allow False]"
    by (simp_all add: w'_def httpStatus_def tooManyRequests_def)
  ultimately show "\<exists>w'. (\<forall>next. rateLimitMiddleware next r w = Inr w') \<and>
             resp w' = tooManyRequests \<and> httpStatus (resp w') = 429 \<and>
             limiter w' = limiter w \<and> trace w' = trace w @ [Allow False]"
    by blast
next
  assume a: "throttleDelay (config w) (UnixNano w) = Inr d \<and>
      \<not> fst (TryAcquire (real_of_int (clock w + sleepNs d) / 1000000000) (limiter w)) \<and>
      resp w = emptyResponse"
  define w' where
    "w' = w\<lparr> clock := clock w + sleepNs d, trace := trace w @ sleepEvents d @ [Allow False],
             resp := tooManyRequests \<rparr>"
  have "\<forall>next. combinedMiddleware next r w = Inr w'"
    using a by (simp add: combined_reject w'_def)
  moreover have "resp w' = tooManyRequests" "httpStatus (resp w') = 429"
    "limiter w' = limiter w" "trace w' = trace w @ sleepEvents d @ [Allow False]"
    by (simp_all add: w'_def httpStatus_def tooManyRequests_def)
  ultimately show "\<exists>w'. (\<forall>next. combinedMiddleware next r w = Inr w') \<and>
             resp w' = tooManyRequests \<and> httpStatus (resp w') = 429 \<and>
             limiter w' = limiter w \<and> trace w' = trace w @ sleepEvents d @ [Allow False]"
    by blast
next
  assume a: "(Path r = ''/api/get'' \<or> Path r = ''/api/post'' \<or> Path r = ''/api/db/messages'') \<and>
      throttleDelay (config w) (UnixNano w) = Inr d \<and>
      \<not> fst (TryAcquire (real_of_int (clock w + sleepNs d) / 1000000000) (limiter w))"
  define w0 where "w0 = w\<lparr> resp := emptyResponse \<rparr>"
  define w' where
    "w' = w\<lparr> clock := clock w + sleepNs d, trace := trace w @ sleepEvents d @ [Allow False],
             resp := tooManyRequests \<rparr>"
  have d0: "throttleDelay (config w0) (UnixNano w0) = Inr d"
    and rej: "\<not> fst (TryAcquire (real_of_int (clock w0 + sleepNs d) / 1000000000) (limiter w0))"
    and fresh: "resp w0 = emptyResponse"
    using a by (simp_all add: w0_def UnixNano_def)
  have pipe: "combinedMiddleware h r w0 = Inr w'" for h
    using combined_reject [OF d0 rej fresh, of h r] by (simp add: w0_def w'_def)
  have "\<forall>getH postH dbGetH dbPostH. serve getH postH dbGetH dbPostH r w = Inr w'"
  proof (intro allI)
    fix getH postH dbGetH dbPostH
    from a serve_wrapped [of r getH postH dbGetH dbPostH w]
    obtain h where "serve getH postH dbGetH dbPostH r w = combinedMiddleware h r w0"
      unfolding w0_def by blast
    then show "serve getH postH dbGetH dbPostH r w = Inr w'" by (simp add: pipe)
  qed
  moreover have "resp w' = tooManyRequests" "httpStatus (resp w') = 429"
    "limiter w' = limiter w" "trace w' = trace w @ sleepEvents d @ [Allow False]"
    by (simp_all add: w'_def httpStatus_def tooManyRequests_def)
  ultimately show "\<exists>w'. (\<forall>getH postH dbGetH dbPostH. serve getH postH dbGetH dbPostH r w = Inr w') \<and>
             resp w' = tooManyRequests \<and> httpStatus (resp w') = 429 \<and>
             limiter w' = limiter w \<and> trace w' = trace w @ sleepEvents d @ [Allow False]"
    by blast
qed

lemma slowClosed_config:
  "RateLimitRequests (loadConfig slowClosedEnv) = 0"
  "RateLimitPeriod (loadConfig slowClosedEnv) = 1"
  "ThrottleMinMs (loadConfig slowClosedEnv) = 200"
  "ThrottleMaxMs (loadConfig slowClosedEnv) = 200"
  by (simp_all add: loadConfig_fields slowClosedEnv_def envWith_def getEnv_def Atoi_def
      fastAtoi_def digit_val_def)

lemma slowClosedWorld_fields:
  "config slowClosedWorld = loadConfig slowClosedEnv"
  "limiter slowClosedWorld = \<lparr> limit = Finite 0, burst = 0, tokens = 0, last = 0 \<rparr>"
  "clock slowClosedWorld = 0"
  "trace slowClosedWorld = []"
  "resp slowClosedWorld = emptyResponse"
  "dbPing slowClosedWorld = None"
  by (simp_all add: slowClosedWorld_def main_serving slowClosed_config NewLimiter_def
      float_div_def)

lemma slowClosed_delay:
  "throttleDelay (config slowClosedWorld) (UnixNano slowClosedWorld) = Inr (Some 200)"
  by (simp add: slowClosedWorld_fields slowClosed_config throttleDelay_def word_sless_alt)

lemma sleepNs_200: "sleepNs (Some 200) = 200000000"
  by (simp add: sleepNs_def Millisecond_def)

lemma sleepEvents_200: "sleepEvents (Some 200) = [Sleep 200000000]"
  by (simp add: sleepEvents_def Millisecond_def)

lemma slowClosed_rejects:
  "\<not> fst (TryAcquire (real_of_int (clock slowClosedWorld + sleepNs (Some 200)) / 1000000000)
            (limiter slowClosedWorld))"
  by (simp add: slowClosedWorld_fields sleepNs_200 TryAcquire_def gained_def)

theorem delay_before_admission_witness:
  "\<exists>w'. combinedMiddleware NotFound \<lparr> Method = ''GET'', Path = ''/api/get'' \<rparr> slowClosedWorld
           = Inr w' \<and>
         clock w' = 200000000 \<and> trace w' = [Sleep 200000000, Allow False]"
proof -
  let ?r = "\<lparr> Method = ''GET'', Path = ''/api/get'' \<rparr>"
  from delay_before_admission [of slowClosedWorld DivideByZero NotFound ?r "Some 200"]
       slowClosed_delay
  obtain ok w1 where
    run: "combinedMiddleware NotFound ?r slowClosedWorld
            = (if ok then NotFound ?r w1 else Inr (w1\<lparr> resp := rateLimited (resp w1) \<rparr>))"
    and ok: "ok = fst (TryAcquire (real_of_int (clock slowClosedWorld + sleepNs (Some 200))
                                     / 1000000000) (limiter slowClosedWorld))"
    and cl: "clock w1 = clock slowClosedWorld + sleepNs (Some 200)"
    and tr: "trace w1 = trace slowClosedWorld @ sleepEvents (Some 200) @ [Allow ok]"
    by blast
  from ok slowClosed_rejects have nok: "\<not> ok" by simp
  let ?w' = "w1\<lparr> resp := rateLimited (resp w1) \<rparr>"
  have "combinedMiddleware NotFound ?r slowClosedWorld = Inr ?w'"
    using run nok by simp
  moreover have "clock ?w' = 200000000"
    using cl by (simp add: slowClosedWorld_fields sleepNs_200)
  moreover have "trace ?w' = [Sleep 200000000, Allow False]"
    using tr nok by (simp add: slowClosedWorld_fields sleepEvents_200)
  ultimately show ?thesis by blast
qed

theorem rejection_is_429_witness:
  "\<exists>w'. (\<forall>getH postH dbGetH dbPostH.
            serve getH postH dbGetH dbPostH \<lparr> Method = ''GET'', Path = ''/api/get'' \<rparr> slowClosedWorld
              = Inr w') \<and>
         resp w' = tooManyRequests \<and> httpStatus (resp w') = 429 \<and>
         trace w' = [Sleep 200000000, Allow False]"
proof -
  let ?r = "\<lparr> Method = ''GET'', Path = ''/api/get'' \<rparr>"
  have h: "(Path ?r = ''/api/get'' \<or> Path ?r = ''/api/post'' \<or> Path ?r = ''/api/db/messages'') \<and>
           throttleDelay (config slowClosedWorld) (UnixNano slowClosedWorld) = Inr (Some 200) \<and>
           \<not> fst (TryAcquire (real_of_int (clock slowClosedWorld + sleepNs (Some 200)) / 1000000000)
                    (limiter slowClosedWorld))"
    using slowClosed_delay slowClosed_rejects by simp
  from rejection_is_429 [where w = slowClosedWorld and d = "Some 200" and r = ?r] h
  obtain w' where
    "\<forall>getH postH dbGetH dbPostH. serve getH postH dbGetH dbPostH ?r slowClosedWorld = Inr w'"
    "resp w' = tooManyRequests" "httpStatus (resp w') = 429"
    "trace w' = trace slowClosedWorld @ sleepEvents (Some 200) @ [Allow False]"
    by blast
  then show ?thesis
    by (auto simp: slowClosedWorld_fields sleepEvents_200)
qed

subsection \<open>The health report\<close>

lemma dbError_None: "dbPing w = None \<Longrightarrow> dbError w = []"
  by (simp add: dbError_def)

lemma dbError_Some: "dbPing w = Some e \<Longrightarrow> dbError w = e"
  by (simp add: dbError_def)

lemma healthSnapshot_ok:
  "dbError w = [] \<Longrightarrow> healthSnapshot w = JObject (healthResponse w)"
  by (simp add: healthSnapshot_def)

lemma healthSnapshot_degraded:
  "dbError w \<noteq> [] \<Longrightarrow>
   healthSnapshot w =
     JObject
       [(''status'', JString ''degraded''),
        (''time'', JTime (clock w)),
        (''database'', JObject (healthDatabase w @ [(''error'', JString (dbError w))])),
        (''configuration'', the (map_of (healthResponse w) ''configuration'')),
        (''server'', JObject [(''port'', JString (Port (config w)))])]"
  by (simp add: healthSnapshot_def healthResponse_def healthDatabase_def)


lemma encodable_snapshot:
  "RateLimitPeriod (config w) \<noteq> 0 \<Longrightarrow> encodable (healthSnapshot w)"
  by (cases "dbError w = []")
    (simp_all add: healthSnapshot_ok healthSnapshot_degraded healthResponse_def
      healthDatabase_def float_div_def signed_eq_0_iff)

lemma healthHandler_frame:
  "\<exists>w'. healthHandler r w = Inr w' \<and> limiter w' = limiter w \<and> config w' = config w \<and>
         clock w' = clock w \<and> trace w' = trace w \<and> dbPing w' = dbPing w"
  by (simp add: healthHandler_def Let_def)

lemma healthHandler_status:
  assumes "resp w = emptyResponse"
  shows "\<exists>w'. healthHandler r w = Inr w' \<and>
           httpStatus (resp w') = (if dbPing w = None then 200 else 503)"
proof (cases "dbPing w")
  case None
  with assms show ?thesis
    by (simp add: healthHandler_def Let_def dbStatus_def httpStatus_def Encode_def Write_def
        WriteHeader_def SetHeader_def emptyResponse_def)
next
  case (Some e)
  with assms show ?thesis
    by (simp add: healthHandler_def Let_def dbStatus_def httpStatus_def Encode_def Write_def
        WriteHeader_def SetHeader_def emptyResponse_def)
qed

lemma healthHandler_body:
  assumes "resp w = emptyResponse" "RateLimitPeriod (config w) \<noteq> 0"
  shows "\<exists>w'. healthHandler r w = Inr w' \<and> body (resp w') = [Json (healthSnapshot w)] \<and>
           header (resp w') = [(''Content-Type'', ''application/json'')]"
  using assms encodable_snapshot [OF assms(2)]
  by (simp add: healthHandler_def Let_def Encode_def Write_def WriteHeader_def SetHeader_def
      emptyResponse_def)

lemma snapshot_ok_fields:
  assumes "dbPing w = None"
  shows "jget [''status''] (healthSnapshot w) = Some (JString ''ok'')"
    "jget [''database'', ''status''] (healthSnapshot w) = Some (JString ''connected'')"
    "jget [''database'', ''error''] (healthSnapshot w) = None"
    "keys (healthSnapshot w) = [''status'', ''time'', ''database'', ''configuration'', ''server'']"
    "map_option keys (jget [''database''] (healthSnapshot w))
       = Some [''status'', ''host'', ''port'', ''name'']"
  using assms
  by (simp_all add: healthSnapshot_ok dbError_None healthResponse_def healthDatabase_def
      dbStatus_def keys_def)

lemma snapshot_degraded_fields:
  assumes "dbPing w = Some e" "e \<noteq> []"
  shows "jget [''status''] (healthSnapshot w) = Some (JString ''degraded'')"
    "jget [''database'', ''status''] (healthSnapshot w) = Some (JString ''disconnected'')"
    "jget [''database'', ''error''] (healthSnapshot w) = Some (JString e)"
    "keys (healthSnapshot w) = [''status'', ''time'', ''database'', ''configuration'', ''server'']"
    "map_option keys (jget [''database''] (healthSnapshot w))
       = Some [''status'', ''host'', ''port'', ''name'', ''error'']"
  using assms
  by (simp_all add: healthSnapshot_degraded dbError_Some healthDatabase_def dbStatus_def keys_def)

lemma snapshot_rest_same:
  "jget [''configuration''] (healthSnapshot w)
     = jget [''configuration''] (healthSnapshot (w\<lparr> dbPing := None \<rparr>))"
  "jget [''server''] (healthSnapshot w) = jget [''server''] (healthSnapshot (w\<lparr> dbPing := None \<rparr>))"
  "jget [''time''] (healthSnapshot w) = jget [''time''] (healthSnapshot (w\<lparr> dbPing := None \<rparr>))"
  by (cases "dbError w = []";
      simp add: healthSnapshot_ok healthSnapshot_degraded dbError_def healthResponse_def)+

text \<open>
  C6. A health request arriving with a fresh response writer. When the probe succeeds the
  snapshot has status \<^verbatim>\<open>ok\<close> and the HTTP status is 200. When the probe fails with the
  error text \<open>e\<close> (not empty, as the errors of \<^verbatim>\<open>database/sql\<close> and the driver are) the
  snapshot has status \<^verbatim>\<open>degraded\<close>, \<^verbatim>\<open>database.error\<close> is \<open>e\<close> itself and the HTTP
  status is 503; the object has the same fields as in the other case, \<^verbatim>\<open>database\<close>
  having \<^verbatim>\<open>error\<close> in addition, and the same configuration, server and time entries. For
  a period other than 0 the body written is the snapshot.
\<close>

theorem health_status_follows_probe:
  assumes "resp w = emptyResponse"
  shows
    "(dbPing w = None \<longrightarrow>
        jget [''status''] (healthSnapshot w) = Some (JString ''ok'') \<and>
        jget [''database'', ''status''] (healthSnapshot w) = Some (JString ''connected'') \<and>
        keys (healthSnapshot w)
          = [''status'', ''time'', ''database'', ''configuration'', ''server''] \<and>
        map_option keys (jget [''database''] (healthSnapshot w))
          = Some [''status'', ''host'', ''port'', ''name''] \<and>
        (\<exists>w'. healthHandler r w = Inr w' \<and> httpStatus (resp w') = 200)) \<and>
     (dbPing w = Some e \<and> e \<noteq> [] \<longrightarrow>
        jget [''status''] (healthSnapshot w) = Some (JString ''degraded'') \<and>
        jget [''database'', ''status''] (healthSnapshot w) = Some (JString ''disconnected'') \<and>
        jget [''database'', ''error''] (healthSnapshot w) = Some (JString e) \<and>
        keys (healthSnapshot w)
          = [''status'', ''time'', ''database'', ''configuration'', ''server''] \<and>
        map_option keys (jget [''database''] (healthSnapshot w))
          = Some [''status'', ''host'', ''port'', ''name'', ''error''] \<and>
        jget [''configuration''] (healthSnapshot w)
          = jget [''configuration''] (healthSnapshot (w\<lparr> dbPing := None \<rparr>)) \<and>
        jget [''server''] (healthSnapshot w)
          = jget [''server''] (healthSnapshot (w\<lparr> dbPing := None \<rparr>)) \<and>
        jget [''time''] (healthSnapshot w)
          = jget [''time''] (healthSnapshot (w\<lparr> dbPing := None \<rparr>)) \<and>
        (\<exists>w'. healthHandler r w = Inr w' \<and> httpStatus (resp w') = 503)) \<and>
     (RateLimitPeriod (config w) \<noteq> 0 \<longrightarrow>
        (\<exists>w'. healthHandler r w = Inr w' \<and> body (resp w') = [Json (healthSnapshot w)] \<and>
               header (resp w') = [(''Content-Type'', ''application/json'')]))"
proof (intro conjI impI)
  assume ok: "dbPing w = None"
  show "jget [''status''] (healthSnapshot w) = Some (JString ''ok'')"
    "jget [''database'', ''status''] (healthSnapshot w) = Some (JString ''connected'')"
    "keys (healthSnapshot w) = [''status'', ''time'', ''database'', ''configuration'', ''server'']"
    "map_option keys (jget [''database''] (healthSnapshot w))
       = Some [''status'', ''host'', ''port'', ''name'']"
    by (rule snapshot_ok_fields [OF ok])+
  show "\<exists>w'. healthHandler r w = Inr w' \<and> httpStatus (resp w') = 200"
    using healthHandler_status [OF assms, of r] ok by simp
next
  assume bad: "dbPing w = Some e \<and> e \<noteq> []"
  then have e: "dbPing w = Some e" and ne: "e \<noteq> []" by simp_all
  show "jget [''status''] (healthSnapshot w) = Some (JString ''degraded'')"
    "jget [''database'', ''status''] (healthSnapshot w) = Some (JString ''disconnected'')"
    "jget [''database'', ''error''] (healthSnapshot w) = Some (JString e)"
    "keys (healthSnapshot w) = [''status'', ''time'', ''database'', ''configuration'', ''server'']"
    "map_option keys (jget [''database''] (healthSnapshot w))
       = Some [''status'', ''host'', ''port'', ''name'', ''error'']"
    by (rule snapshot_degraded_fields [OF e ne])+
  show "jget [''configuration''] (healthSnapshot w)
          = jget [''configuration''] (healthSnapshot (w\<lparr> dbPing := None \<rparr>))"
    "jget [''server''] (healthSnapshot w)
          = jget [''server''] (healthSnapshot (w\<lparr> dbPing := None \<rparr>))"
    "jget [''time''] (healthSnapshot w)
          = jget [''time''] (healthSnapshot (w\<lparr> dbPing := None \<rparr>))"
    by (rule snapshot_rest_same)+
  show "\<exists>w'. healthHandler r w = Inr w' \<and> httpStatus (resp w') = 503"
    using healthHandler_status [OF assms, of r] e by simp
next
  assume "RateLimitPeriod (config w) \<noteq> 0"
  then show "\<exists>w'. healthHandler r w = Inr w' \<and> body (resp w') = [Json (healthSnapshot w)] \<and>
               header (resp w') = [(''Content-Type'', ''application/json'')]"
    by (rule healthHandler_body [OF assms])
qed

theorem health_status_follows_probe_witness:
  "jget [''status''] (healthSnapshot slowClosedWorld) = Some (JString ''ok'') \<and>
   (\<exists>w'. healthHandler \<lparr> Method = ''GET'', Path = ''/health'' \<rparr> slowClosedWorld = Inr w' \<and>
          httpStatus (resp w') = 200 \<and> body (resp w') = [Json (healthSnapshot slowClosedWorld)]) \<and>
   jget [''status''] (healthSnapshot degradedWorld) = Some (JString ''degraded'') \<and>
   jget [''database'', ''error''] (healthSnapshot degradedWorld)
     = Some (JString ''connection refused'') \<and>
   (\<exists>w'. healthHandler \<lparr> Method = ''GET'', Path = ''/health'' \<rparr> degradedWorld = Inr w' \<and>
          httpStatus (resp w') = 503 \<and> body (resp w') = [Json (healthSnapshot degradedWorld)])"
proof -
  let ?r = "\<lparr> Method = ''GET'', Path = ''/health'' \<rparr>"
  have f1: "resp slowClosedWorld = emptyResponse" and p1: "dbPing slowClosedWorld = None"
    and n1: "RateLimitPeriod (config slowClosedWorld) \<noteq> 0"
    by (simp_all add: slowClosedWorld_fields slowClosed_config)
  have f2: "resp degradedWorld = emptyResponse"
    and p2: "dbPing degradedWorld = Some ''connection refused'' \<and> ''connection refused'' \<noteq> []"
    and n2: "RateLimitPeriod (config degradedWorld) \<noteq> 0"
    by (simp_all add: degradedWorld_def slowClosedWorld_fields slowClosed_config)
  note up = health_status_follows_probe [OF f1, of ?r "''x''"]
  note down = health_status_follows_probe [OF f2, of ?r "''connection refused''"]
  have a: "jget [''status''] (healthSnapshot slowClosedWorld) = Some (JString ''ok'')"
    using up p1 by blast
  have b: "\<exists>w'. healthHandler ?r slowClosedWorld = Inr w' \<and> httpStatus (resp w') = 200 \<and>
             body (resp w') = [Json (healthSnapshot slowClosedWorld)]"
    using up p1 n1 by auto
  have c: "jget [''status''] (healthSnapshot degradedWorld) = Some (JString ''degraded'')"
    "jget [''database'', ''error''] (healthSnapshot degradedWorld)
       = Some (JString ''connection refused'')"
    using down p2 by blast+
  have d: "\<exists>w'. healthHandler ?r degradedWorld = Inr w' \<and> httpStatus (resp w') = 503 \<and>
             body (resp w') = [Json (healthSnapshot degradedWorld)]"
    using down p2 n2 by auto
  show ?thesis using a b c d by blast
qed

text \<open>
  Outside C6's hypothesis: a probe error whose text is empty gives status 503 with the
  snapshot status \<^verbatim>\<open>ok\<close> and no \<^verbatim>\<open>error\<close> entry, since the snapshot is changed on
  \<^verbatim>\<open>dbError != ""\<close> and the status code on \<^verbatim>\<open>dbStatus == "disconnected"\<close>.
\<close>

lemma health_empty_error_text:
  assumes "resp w = emptyResponse" "dbPing w = Some []"
  shows "jget [''status''] (healthSnapshot w) = Some (JString ''ok'')"
    "jget [''database'', ''error''] (healthSnapshot w) = None"
    "\<exists>w'. healthHandler r w = Inr w' \<and> httpStatus (resp w') = 503"
proof -
  have "dbError w = []" using assms(2) by (simp add: dbError_def)
  then show "jget [''status''] (healthSnapshot w) = Some (JString ''ok'')"
    "jget [''database'', ''error''] (healthSnapshot w) = None"
    by (simp_all add: healthSnapshot_ok healthResponse_def healthDatabase_def)
  show "\<exists>w'. healthHandler r w = Inr w' \<and> httpStatus (resp w') = 503"
    using healthHandler_status [OF assms(1), of r] assms(2) by simp
qed











text \<open>
  C8. \<^verbatim>\<open>healthHandler\<close> leaves the limiter, the configuration and the clock as they were
  and calls neither \<^verbatim>\<open>time.Sleep\<close> nor \<^verbatim>\<open>limiter.Allow\<close>. The route \<^verbatim>\<open>/health\<close> is the
  handler itself, outside \<^verbatim>\<open>combinedMiddleware\<close>: a request to it is answered by the
  handler whatever the limiter and the throttle bounds are.
\<close>

theorem health_bypasses_pipeline:
  "(\<exists>w'. healthHandler r w = Inr w' \<and> limiter w' = limiter w \<and> config w' = config w \<and>
          clock w' = clock w \<and> trace w' = trace w) \<and>
   (Path r = ''/health'' \<longrightarrow>
      serve getH postH dbGetH dbPostH r w = healthHandler r (w\<lparr> resp := emptyResponse \<rparr>) \<and>
      (\<exists>w'. serve getH postH dbGetH dbPostH r w = Inr w' \<and> limiter w' = limiter w \<and>
             config w' = config w \<and> clock w' = clock w \<and> trace w' = trace w \<and>
             httpStatus (resp w') = (if dbPing w = None then 200 else 503)))"
proof (intro conjI impI)
  show "\<exists>w'. healthHandler r w = Inr w' \<and> limiter w' = limiter w \<and> config w' = config w \<and>
          clock w' = clock w \<and> trace w' = trace w"
    using healthHandler_frame [of r w] by blast
next
  assume h: "Path r = ''/health''"
  then show eq: "serve getH postH dbGetH dbPostH r w
                   = healthHandler r (w\<lparr> resp := emptyResponse \<rparr>)"
    by (simp add: serve_def routes_def)
  let ?w = "w\<lparr> resp := emptyResponse \<rparr>"
  have "resp ?w = emptyResponse" by simp
  from healthHandler_status [OF this, of r] obtain w' where
    w': "healthHandler r ?w = Inr w'" "httpStatus (resp w') = (if dbPing ?w = None then 200 else 503)"
    by blast
  moreover from healthHandler_frame [of r ?w] w'(1)
  have "limiter w' = limiter w" "config w' = config w" "clock w' = clock w" "trace w' = trace w"
    by auto
  ultimately show "\<exists>w'. serve getH postH dbGetH dbPostH r w = Inr w' \<and> limiter w' = limiter w \<and>
             config w' = config w \<and> clock w' = clock w \<and> trace w' = trace w \<and>
             httpStatus (resp w') = (if dbPing w = None then 200 else 503)"
    using eq by auto
qed

theorem health_bypasses_pipeline_witness:
  "\<exists>w'. serve NotFound NotFound NotFound NotFound \<lparr> Method = ''GET'', Path = ''/health'' \<rparr>
           slowClosedWorld = Inr w' \<and>
         limiter w' = limiter slowClosedWorld \<and> clock w' = 0 \<and> trace w' = [] \<and>
         httpStatus (resp w') = 200"
proof -
  let ?r = "\<lparr> Method = ''GET'', Path = ''/health'' \<rparr>"
  have h: "Path ?r = ''/health''" by simp
  from health_bypasses_pipeline [of ?r slowClosedWorld NotFound NotFound NotFound NotFound] h
  obtain w' where
    "serve NotFound NotFound NotFound NotFound ?r slowClosedWorld = Inr w'"
    "limiter w' = limiter slowClosedWorld" "clock w' = clock slowClosedWorld"
    "trace w' = trace slowClosedWorld"
    "httpStatus (resp w') = (if dbPing slowClosedWorld = None then 200 else 503)"
    by blast
  then show ?thesis by (auto simp: slowClosedWorld_fields)
qed


end
